theory Spec2Isabelle
  imports Complex_Main "HOL-Library.List_Lexorder" "HOL-Library.Char_ord"
begin

section \<open>Exceptions and dictionaries\<close>

text \<open>
  A Python exception is its class together with the text \<open>str(e)\<close> gives. Every class
  listed derives from \<open>Exception\<close>, so a handler \<open>except Exception\<close> catches each of
  them; an operation that may raise returns \<open>pyexc + 'a\<close>, with \<open>Inl\<close> the exception.
\<close>

datatype exc_class =
  SyntaxError | KeyError | TypeError | ZeroDivisionError | ValueError
  | IndentationError | RuntimeError | IndexError | OverflowError | RecursionError
  | MemoryError | AttributeError | OtherException

datatype pyexc = Exc exc_class string

fun exc_class_of :: "pyexc \<Rightarrow> exc_class" where
  "exc_class_of (Exc c m) = c"

fun exc_str :: "pyexc \<Rightarrow> string" where
  "exc_str (Exc c m) = m"

text \<open>
  The dictionaries the pipeline passes around (\<open>Dict[str, Any]\<close>) are read and written at
  a fixed set of keys; a key that is absent (or holds \<open>None\<close>) is \<open>None\<close> here. Scores are
  Python floats, idealised as rationals.
\<close>

record document =
  doc_id :: "string option"
  content :: "string option"
  metadata :: "(string \<times> string) list"
  score :: "rat option"
  distance :: "rat option"
  source :: "string option"
  chunk_index :: "int option"
  rrf_score :: "rat option"
  sources :: "string list option"
  rerank_score :: "rat option"

section \<open>Tool executor (app/rag/llm/tool\_executor.py)\<close>

text \<open>
  A registered tool is called with keyword arguments and either returns (the executor
  applies \<open>str\<close> to the result inside the same \<open>try\<close>) or raises.
\<close>

type_synonym tool_args = "(string \<times> string) list"
type_synonym tool = "tool_args \<Rightarrow> pyexc + string"
type_synonym registry = "string \<rightharpoonup> tool"

definition get_tool :: "registry \<Rightarrow> string \<Rightarrow> tool option" where
  "get_tool tools name = tools name"

definition execute_tool :: "registry \<Rightarrow> string \<Rightarrow> tool_args option \<Rightarrow> pyexc + string" where
  "execute_tool tools tool_name args =
     (case get_tool tools tool_name of
        None \<Rightarrow> Inr (''Error: Tool '' @ [CHR 0x27] @ tool_name @ [CHR 0x27] @ '' not found'')
      | Some tool \<Rightarrow>
          (let tool_args = (case args of None \<Rightarrow> [] | Some a \<Rightarrow> a) in
           case tool tool_args of
             Inr result \<Rightarrow> Inr result
           | Inl e \<Rightarrow> Inr (''Error executing tool: '' @ exc_str e)))"

section \<open>Confidence (app/utils/helpers.py, app/rag/pipeline.py)\<close>




definition mk_doc :: "string \<Rightarrow> rat option \<Rightarrow> document" where
  "mk_doc i s = \<lparr> doc_id = Some i, content = Some ''text'', metadata = [], score = s,
     distance = None, source = None, chunk_index = None, rrf_score = None,
     sources = None, rerank_score = None \<rparr>"

section \<open>Settings (app/config.py)\<close>

record settings =
  CHUNK_SIZE :: int
  CHUNK_OVERLAP :: int
  BM25_TOP_K :: int
  VECTOR_TOP_K :: int
  HYBRID_TOP_K :: int
  RERANK_TOP_K :: int

definition default_settings :: settings where
  "default_settings = \<lparr> CHUNK_SIZE = 1000, CHUNK_OVERLAP = 200, BM25_TOP_K = 10,
     VECTOR_TOP_K = 10, HYBRID_TOP_K = 5, RERANK_TOP_K = 3 \<rparr>"

section \<open>Python list and string primitives\<close>

text \<open>The slice \<open>xs[:k]\<close>: a negative \<open>k\<close> counts from the end.\<close>

definition py_take :: "int \<Rightarrow> 'a list \<Rightarrow> 'a list" where
  "py_take k xs = (if k < 0 then take (nat (int (length xs) + k)) xs else take (nat k) xs)"

text \<open>\<open>sorted(xs, key=f, reverse=True)\<close>: descending and stable.\<close>

definition sorted_desc :: "('a \<Rightarrow> rat) \<Rightarrow> 'a list \<Rightarrow> 'a list" where
  "sorted_desc f xs = sort_key (\<lambda>x. - f x) xs"

text \<open>
  \<open>str.lower\<close> and \<open>str.isspace\<close> on the code points below 256 that a \<open>char\<close> holds
  (the letters with a lower-case partner there are A-Z and the Latin-1 capitals).
\<close>

definition lower_char :: "char \<Rightarrow> char" where
  "lower_char c = (let n = (of_char c :: nat) in
     if (65 \<le> n \<and> n \<le> 90) \<or> (192 \<le> n \<and> n \<le> 222 \<and> n \<noteq> 215) then char_of (n + 32) else c)"

definition lower :: "string \<Rightarrow> string" where
  "lower s = map lower_char s"

definition is_space :: "char \<Rightarrow> bool" where
  "is_space c = ((of_char c :: nat) \<in> {9, 10, 11, 12, 13, 28, 29, 30, 31, 32, 133, 160})"

definition lstrip :: "string \<Rightarrow> string" where
  "lstrip s = dropWhile is_space s"

definition strip :: "string \<Rightarrow> string" where
  "strip s = rev (dropWhile is_space (rev (dropWhile is_space s)))"

text \<open>\<open>str.split()\<close> with no argument: the maximal runs of non-space characters.\<close>

fun split_ws :: "string \<Rightarrow> string \<Rightarrow> string list" where
  "split_ws cur [] = (if cur = [] then [] else [cur])"
| "split_ws cur (c # cs) =
     (if is_space c then (if cur = [] then split_ws [] cs else cur # split_ws [] cs)
      else split_ws (cur @ [c]) cs)"

definition split :: "string \<Rightarrow> string list" where
  "split s = split_ws [] s"

text \<open>\<open>sub in s\<close> for strings.\<close>

fun contains :: "string \<Rightarrow> string \<Rightarrow> bool" where
  "contains sub [] = (sub = [])"
| "contains sub (c # cs) = (take (length sub) (c # cs) = sub \<or> contains sub cs)"

text \<open>\<open>str(n)\<close> for a natural number.\<close>

definition digit_char :: "nat \<Rightarrow> char" where
  "digit_char d = ''0123456789'' ! d"

function str_nat :: "nat \<Rightarrow> string" where
  "str_nat n = (if n < 10 then [digit_char n] else str_nat (n div 10) @ [digit_char (n mod 10)])"
  by pat_completeness auto
termination
  by (relation "measure id") auto

declare str_nat.simps [simp del]

section \<open>Floating-point arithmetic\<close>

text \<open>
  A finite Python float is the rational number it denotes, and floats are compared as
  these numbers are. The arithmetic on them rounds; it is not computed here but taken as
  a parameter: \<open>x + y\<close>, \<open>x / y\<close> for a divisor that is not zero, and \<open>round(x, n)\<close>.
\<close>

record arith =
  fadd :: "rat \<Rightarrow> rat \<Rightarrow> rat"
  fdiv :: "rat \<Rightarrow> rat \<Rightarrow> rat"
  fround :: "rat \<Rightarrow> nat \<Rightarrow> rat"

text \<open>Rounding to the nearest integer, a tie to the even one.\<close>

definition round_half_even :: "rat \<Rightarrow> int" where
  "round_half_even x =
     (let f = \<lfloor>x\<rfloor>; d = x - of_int f
      in if d < 1 / 2 then f else if 1 / 2 < d then f + 1 else if even f then f else f + 1)"

text \<open>
  An arithmetic for running the model: sums and quotients without rounding error, and
  \<open>round(x, n)\<close> to the nearest multiple of \<open>10\<^sup>-\<^sup>n\<close>.
\<close>

definition exact_arith :: arith where
  "exact_arith = \<lparr> fadd = (\<lambda>x y. x + y), fdiv = (\<lambda>x y. x / y),
     fround = (\<lambda>x n. of_int (round_half_even (x * 10 ^ n)) / 10 ^ n) \<rparr>"

section \<open>Safe evaluator (app/rag/llm/tools.py)\<close>

subsection \<open>Syntax trees and numbers\<close>

text \<open>
  The nodes of Python's \<open>ast\<close> that \<open>_eval\<close> tells apart. Every node class it does not name
  is \<open>OtherNode\<close> with the name of the class. The constants are those a text without
  letters and quotes can denote, and strings, bytes and \<open>None\<close>; \<open>True\<close>, \<open>False\<close> and
  complex literals need a letter.
\<close>

datatype operator =
  Add | Sub | Mult | Div | Mod | Pow_op | FloorDiv | MatMult | LShift | RShift
  | BitOr | BitXor | BitAnd

datatype unaryop = UAdd | USub | Not_op | Invert

datatype 'x pyconst = CInt int | CFloat 'x | CEllipsis | CStr string | CBytes string | CNone

datatype 'x node =
  Constant "'x pyconst"
  | BinOp "'x node" operator "'x node"
  | UnaryOp unaryop "'x node"
  | Expr "'x node"
  | OtherNode string

text \<open>
  A Python number is an unbounded integer or a value of the floating-point kind. The
  latter are not computed here: \<open>'x\<close> is their carrier, and the arithmetic in which one
  takes part (or that leaves the integers: true division, a negative exponent) is a
  parameter that may raise.
\<close>

datatype 'x pynum = PInt int | PFloat 'x

record 'x float_ops =
  float_of_literal :: "string \<Rightarrow> 'x"
  float_arith :: "operator \<Rightarrow> 'x pynum \<Rightarrow> 'x pynum \<Rightarrow> pyexc + 'x pynum"
  float_neg :: "'x \<Rightarrow> 'x"
  float_str :: "'x \<Rightarrow> string"

definition class_repr :: "string \<Rightarrow> string" where
  "class_repr name = ''<class '' @ [CHR 0x27] @ name @ [CHR 0x27] @ ''>''"

fun operator_name :: "operator \<Rightarrow> string" where
  "operator_name Add = ''ast.Add''"
| "operator_name Sub = ''ast.Sub''"
| "operator_name Mult = ''ast.Mult''"
| "operator_name Div = ''ast.Div''"
| "operator_name Mod = ''ast.Mod''"
| "operator_name Pow_op = ''ast.Pow''"
| "operator_name FloorDiv = ''ast.FloorDiv''"
| "operator_name MatMult = ''ast.MatMult''"
| "operator_name LShift = ''ast.LShift''"
| "operator_name RShift = ''ast.RShift''"
| "operator_name BitOr = ''ast.BitOr''"
| "operator_name BitXor = ''ast.BitXor''"
| "operator_name BitAnd = ''ast.BitAnd''"

fun unaryop_name :: "unaryop \<Rightarrow> string" where
  "unaryop_name UAdd = ''ast.UAdd''"
| "unaryop_name USub = ''ast.USub''"
| "unaryop_name Not_op = ''ast.Not''"
| "unaryop_name Invert = ''ast.Invert''"

fun constant_type :: "'x pyconst \<Rightarrow> string" where
  "constant_type (CInt i) = ''int''"
| "constant_type (CFloat f) = ''float''"
| "constant_type CEllipsis = ''ellipsis''"
| "constant_type (CStr s) = ''str''"
| "constant_type (CBytes s) = ''bytes''"
| "constant_type CNone = ''NoneType''"

subsection \<open>The table \<open>operators\<close> and the arithmetic of \<open>operator\<close>\<close>

text \<open>The keys of the dictionary \<open>operators\<close>; a lookup of any other class is a KeyError.\<close>

fun binop_supported :: "operator \<Rightarrow> bool" where
  "binop_supported Add = True"
| "binop_supported Sub = True"
| "binop_supported Mult = True"
| "binop_supported Div = True"
| "binop_supported Mod = True"
| "binop_supported Pow_op = True"
| "binop_supported other = False"

fun unaryop_supported :: "unaryop \<Rightarrow> bool" where
  "unaryop_supported UAdd = True"
| "unaryop_supported USub = True"
| "unaryop_supported other = False"

text \<open>
  \<open>op.add\<close>, \<open>op.sub\<close>, \<open>op.mul\<close>, \<open>op.truediv\<close>, \<open>op.mod\<close>, \<open>op.pow\<close> on two integers
  (messages as in CPython 3.11). \<open>mod\<close> on \<open>int\<close> takes the sign of the divisor, as
  Python's \<open>%\<close> does.
\<close>

definition int_binop :: "'x float_ops \<Rightarrow> operator \<Rightarrow> int \<Rightarrow> int \<Rightarrow> pyexc + 'x pynum" where
  "int_binop fl oper a b =
     (if oper = Add then Inr (PInt (a + b))
      else if oper = Sub then Inr (PInt (a - b))
      else if oper = Mult then Inr (PInt (a * b))
      else if oper = Div then
        (if b = 0 then Inl (Exc ZeroDivisionError ''division by zero'')
         else float_arith fl Div (PInt a) (PInt b))
      else if oper = Mod then
        (if b = 0 then Inl (Exc ZeroDivisionError ''integer modulo by zero'')
         else Inr (PInt (a mod b)))
      else if oper = Pow_op then
        (if 0 \<le> b then Inr (PInt (a ^ nat b))
         else if a = 0 then Inl (Exc ZeroDivisionError ''0.0 cannot be raised to a negative power'')
         else float_arith fl Pow_op (PInt a) (PInt b))
      else Inl (Exc KeyError (class_repr (operator_name oper))))"

fun apply_binop :: "'x float_ops \<Rightarrow> operator \<Rightarrow> 'x pynum \<Rightarrow> 'x pynum \<Rightarrow> pyexc + 'x pynum" where
  "apply_binop fl oper (PInt a) (PInt b) = int_binop fl oper a b"
| "apply_binop fl oper a b = float_arith fl oper a b"

fun apply_unaryop :: "'x float_ops \<Rightarrow> unaryop \<Rightarrow> 'x pynum \<Rightarrow> 'x pynum" where
  "apply_unaryop fl USub (PInt a) = PInt (- a)"
| "apply_unaryop fl USub (PFloat x) = PFloat (float_neg fl x)"
| "apply_unaryop fl oper v = v"

subsection \<open>\<open>_eval\<close>, \<open>_safe_eval\<close> and \<open>calculate\<close>\<close>

text \<open>
  \<open>operators[type(node.op)]\<close> is looked up before the operands are evaluated, the left
  operand before the right one.
\<close>

fun eval_node :: "'x float_ops \<Rightarrow> 'x node \<Rightarrow> pyexc + 'x pynum" where
  "eval_node fl (Constant c) =
     (case c of
        CInt i \<Rightarrow> Inr (PInt i)
      | CFloat f \<Rightarrow> Inr (PFloat f)
      | _ \<Rightarrow> Inl (Exc TypeError (''Unsupported constant type: '' @ class_repr (constant_type c))))"
| "eval_node fl (BinOp left oper right) =
     (if \<not> binop_supported oper then Inl (Exc KeyError (class_repr (operator_name oper)))
      else case eval_node fl left of
             Inl e \<Rightarrow> Inl e
           | Inr a \<Rightarrow> (case eval_node fl right of
                         Inl e \<Rightarrow> Inl e
                       | Inr b \<Rightarrow> apply_binop fl oper a b))"
| "eval_node fl (UnaryOp oper operand) =
     (if \<not> unaryop_supported oper then Inl (Exc KeyError (class_repr (unaryop_name oper)))
      else case eval_node fl operand of
             Inl e \<Rightarrow> Inl e
           | Inr a \<Rightarrow> Inr (apply_unaryop fl oper a))"
| "eval_node fl (Expr v) = eval_node fl v"
| "eval_node fl (OtherNode name) =
     Inl (Exc TypeError (''Unsupported AST node: '' @ class_repr name))"

text \<open>
  \<open>ast.parse(expression, mode="eval")\<close> is Python's own parser, a parameter \<open>parse\<close> of
  the model: it returns the body of the tree or raises. The handler of \<open>_safe_eval\<close>
  catches SyntaxError (with its subclass IndentationError), KeyError, TypeError and
  ZeroDivisionError and raises ValueError in their place; any other exception passes.
\<close>

type_synonym 'x parser = "string \<Rightarrow> pyexc + 'x node"

definition caught_by_safe_eval :: "exc_class \<Rightarrow> bool" where
  "caught_by_safe_eval c =
     (c \<in> {SyntaxError, IndentationError, KeyError, TypeError, ZeroDivisionError})"

definition reraise :: "pyexc \<Rightarrow> pyexc" where
  "reraise e =
     (if caught_by_safe_eval (exc_class_of e)
      then Exc ValueError (''Invalid expression: '' @ exc_str e) else e)"

definition safe_eval :: "'x parser \<Rightarrow> 'x float_ops \<Rightarrow> string \<Rightarrow> pyexc + 'x pynum" where
  "safe_eval parse fl expression =
     (case parse expression of
        Inl e \<Rightarrow> Inl (reraise e)
      | Inr tree \<Rightarrow> (case eval_node fl tree of
                       Inl e \<Rightarrow> Inl (reraise e)
                     | Inr v \<Rightarrow> Inr v))"

definition str_int :: "int \<Rightarrow> string" where
  "str_int i = (if i < 0 then CHR ''-'' # str_nat (nat (- i)) else str_nat (nat i))"

text \<open>\<open>str(result)\<close>; CPython refuses to print an integer of more than 4300 digits.\<close>

definition py_str :: "'x float_ops \<Rightarrow> 'x pynum \<Rightarrow> pyexc + string" where
  "py_str fl v =
     (case v of
        PInt i \<Rightarrow>
          if 4300 < length (str_nat (nat \<bar>i\<bar>))
          then Inl (Exc ValueError ''Exceeds the limit (4300 digits) for integer string conversion'')
          else Inr (str_int i)
      | PFloat x \<Rightarrow> Inr (float_str fl x))"

definition allowed_chars :: "char set" where
  "allowed_chars = set ''0123456789+-*/()%. ''"

text \<open>
  \<open>calculate\<close>: every exception of the body is caught by \<open>except Exception\<close> and turned
  into a string, so the result is always \<open>Inr\<close>.
\<close>

definition calculate :: "'x parser \<Rightarrow> 'x float_ops \<Rightarrow> string \<Rightarrow> pyexc + string" where
  "calculate parse fl expression =
     (if \<not> (\<forall>c \<in> set expression. c \<in> allowed_chars)
      then Inr ''Error: Invalid characters in expression''
      else case safe_eval parse fl expression of
             Inl e \<Rightarrow> Inr (''Error: '' @ exc_str e)
           | Inr result \<Rightarrow> (case py_str fl result of
                              Inl e \<Rightarrow> Inr (''Error: '' @ exc_str e)
                            | Inr s \<Rightarrow> Inr s))"

subsection \<open>A model of \<open>ast.parse\<close> on the filtered alphabet\<close>

text \<open>
  \<open>py_parse\<close> follows Python's grammar for the texts that pass the filter of
  \<open>calculate\<close>: digits, \<open>+ - * / % ( ) .\<close> and blanks. The tokens are integer and float
  literals, the operators \<open>+ - * ** / // %\<close>, the parentheses, the dot and the ellipsis;
  an integer literal with a leading zero is an error unless it is all zeros, a blank at
  the start is an IndentationError. The expressions are sums of terms of factors, a
  factor is a signed factor or a power \<open>primary ** factor\<close>, and a primary is a number,
  the ellipsis, a parenthesised expression, the empty tuple \<open>()\<close>, or a primary followed
  by a call \<open>()\<close>, \<open>(e)\<close>, \<open>(*e)\<close> or \<open>(**e)\<close>. Tuples and calls become \<open>OtherNode\<close>. The
  text of each syntax error is written \<open>invalid syntax\<close>; CPython's wording varies with
  the error and the version, and the handlers only look at the class. Any character
  outside the alphabet is answered with a syntax error, a case \<open>calculate\<close> never reaches.
\<close>

datatype 'x token =
  TNum "'x pyconst" | TPlus | TMinus | TStar | TDoubleStar | TSlash | TDoubleSlash
  | TPercent | TLParen | TRParen | TDot | TEllipsis

definition is_digit :: "char \<Rightarrow> bool" where
  "is_digit c = (48 \<le> (of_char c :: nat) \<and> (of_char c :: nat) \<le> 57)"

definition int_of_digits :: "string \<Rightarrow> int" where
  "int_of_digits ds = foldl (\<lambda>a c. 10 * a + (int (of_char c) - 48)) 0 ds"

definition syntax_error :: pyexc where
  "syntax_error = Exc SyntaxError ''invalid syntax (<unknown>, line 1)''"

definition cons_token :: "'x token \<Rightarrow> pyexc + 'x token list \<Rightarrow> pyexc + 'x token list" where
  "cons_token t r = (case r of Inl e \<Rightarrow> Inl e | Inr ts \<Rightarrow> Inr (t # ts))"

function tokens :: "'x float_ops \<Rightarrow> string \<Rightarrow> pyexc + 'x token list" where
  "tokens fl [] = Inr []"
| "tokens fl (c # cs) =
     (if c = CHR '' '' then tokens fl cs
      else if is_digit c then
        (let ds = takeWhile is_digit (c # cs); r = dropWhile is_digit cs
         in case r of
              d # r' \<Rightarrow>
                if d = CHR ''.''
                then cons_token
                       (TNum (CFloat (float_of_literal fl (ds @ ''.'' @ takeWhile is_digit r'))))
                       (tokens fl (dropWhile is_digit r'))
                else if c = CHR ''0'' \<and> (\<exists>x \<in> set ds. x \<noteq> CHR ''0'') then Inl syntax_error
                else cons_token (TNum (CInt (int_of_digits ds))) (tokens fl r)
            | [] \<Rightarrow>
                if c = CHR ''0'' \<and> (\<exists>x \<in> set ds. x \<noteq> CHR ''0'') then Inl syntax_error
                else cons_token (TNum (CInt (int_of_digits ds))) (tokens fl r))
      else if c = CHR ''.'' then
        (if cs \<noteq> [] \<and> is_digit (hd cs)
         then cons_token (TNum (CFloat (float_of_literal fl (''.'' @ takeWhile is_digit cs))))
                (tokens fl (dropWhile is_digit cs))
         else if take 2 cs = ''..'' then cons_token TEllipsis (tokens fl (drop 2 cs))
         else cons_token TDot (tokens fl cs))
      else if c = CHR ''*'' then
        (if take 1 cs = ''*'' then cons_token TDoubleStar (tokens fl (drop 1 cs))
         else cons_token TStar (tokens fl cs))
      else if c = CHR ''/'' then
        (if take 1 cs = ''/'' then cons_token TDoubleSlash (tokens fl (drop 1 cs))
         else cons_token TSlash (tokens fl cs))
      else if c = CHR ''+'' then cons_token TPlus (tokens fl cs)
      else if c = CHR ''-'' then cons_token TMinus (tokens fl cs)
      else if c = CHR ''%'' then cons_token TPercent (tokens fl cs)
      else if c = CHR ''('' then cons_token TLParen (tokens fl cs)
      else if c = CHR '')'' then cons_token TRParen (tokens fl cs)
      else Inl syntax_error)"
  by pat_completeness auto
termination
proof -
  have shorter: "length (dropWhile P xs) < Suc (length xs)" for P and xs :: string
    by (simp add: less_Suc_eq_le length_dropWhile_le)
  have shorter2: "length (dropWhile Q ys) < Suc (length xs)"
    if "dropWhile P xs = y # ys" for P Q and xs ys :: string and y
  proof -
    have "length (y # ys) \<le> length xs"
      using length_dropWhile_le [of P xs] that by simp
    moreover have "length (dropWhile Q ys) \<le> length ys"
      by (rule length_dropWhile_le)
    ultimately show ?thesis by simp
  qed
  show ?thesis
    by (relation "measure (\<lambda>(fl, s). length s)")
      (auto simp: shorter intro: shorter2 shorter2 [OF sym])
qed

text \<open>
  The parser proper is an operator-precedence parser with two stacks. An entry of the
  operator stack is a pending binary or unary operator or an open parenthesis: of a
  group, or of a call (plain, or after \<open>*\<close> or \<open>**\<close>). Precedences: sums 1, terms 2,
  signs 3, power 4 (binding to the right).
\<close>

datatype stack_item = SBin operator | SUn unaryop | SGroup | SCall | SCallStar | SCallDoubleStar

fun prec :: "operator \<Rightarrow> nat" where
  "prec Add = 1"
| "prec Sub = 1"
| "prec Pow_op = 4"
| "prec other = 2"

text \<open>\<open>reduce p\<close> builds the nodes of the pending operators of precedence at least \<open>p\<close>.\<close>

fun reduce :: "nat \<Rightarrow> stack_item list \<Rightarrow> 'x node list \<Rightarrow> stack_item list \<times> 'x node list" where
  "reduce p (SBin oper # ops) (r # l # out) =
     (if p \<le> prec oper then reduce p ops (BinOp l oper r # out)
      else (SBin oper # ops, r # l # out))"
| "reduce p (SUn oper # ops) (x # out) =
     (if p \<le> 3 then reduce p ops (UnaryOp oper x # out)
      else (SUn oper # ops, x # out))"
| "reduce p ops out = (ops, out)"

record 'x parse_state =
  ops :: "stack_item list"
  out :: "'x node list"
  want_operand :: bool

definition push_binop :: "operator \<Rightarrow> 'x parse_state \<Rightarrow> pyexc + 'x parse_state" where
  "push_binop oper s =
     (let (ops', out') = reduce (if oper = Pow_op then 5 else prec oper) (ops s) (out s)
      in Inr \<lparr> ops = SBin oper # ops', out = out', want_operand = True \<rparr>)"

fun parse_step :: "'x parse_state \<Rightarrow> 'x token \<Rightarrow> pyexc + 'x parse_state" where
  "parse_step s (TNum c) =
     (if want_operand s then Inr (s\<lparr>out := Constant c # out s, want_operand := False\<rparr>)
      else Inl syntax_error)"
| "parse_step s TEllipsis =
     (if want_operand s then Inr (s\<lparr>out := Constant CEllipsis # out s, want_operand := False\<rparr>)
      else Inl syntax_error)"
| "parse_step s TPlus =
     (if want_operand s then Inr (s\<lparr>ops := SUn UAdd # ops s\<rparr>) else push_binop Add s)"
| "parse_step s TMinus =
     (if want_operand s then Inr (s\<lparr>ops := SUn USub # ops s\<rparr>) else push_binop Sub s)"
| "parse_step s TStar =
     (if want_operand s
      then (case ops s of
              SCall # rest \<Rightarrow> Inr (s\<lparr>ops := SCallStar # rest\<rparr>)
            | _ \<Rightarrow> Inl syntax_error)
      else push_binop Mult s)"
| "parse_step s TDoubleStar =
     (if want_operand s
      then (case ops s of
              SCall # rest \<Rightarrow> Inr (s\<lparr>ops := SCallDoubleStar # rest\<rparr>)
            | _ \<Rightarrow> Inl syntax_error)
      else push_binop Pow_op s)"
| "parse_step s TSlash = (if want_operand s then Inl syntax_error else push_binop Div s)"
| "parse_step s TDoubleSlash = (if want_operand s then Inl syntax_error else push_binop FloorDiv s)"
| "parse_step s TPercent = (if want_operand s then Inl syntax_error else push_binop Mod s)"
| "parse_step s TDot = Inl syntax_error"
| "parse_step s TLParen =
     (if want_operand s then Inr (s\<lparr>ops := SGroup # ops s\<rparr>)
      else Inr (s\<lparr>ops := SCall # ops s, want_operand := True\<rparr>))"
| "parse_step s TRParen =
     (if want_operand s
      then (case (ops s, out s) of
              (SGroup # rest, o') \<Rightarrow>
                Inr \<lparr> ops = rest, out = OtherNode ''ast.Tuple'' # o', want_operand = False \<rparr>
            | (SCall # rest, callee # o') \<Rightarrow>
                Inr \<lparr> ops = rest, out = OtherNode ''ast.Call'' # o', want_operand = False \<rparr>
            | _ \<Rightarrow> Inl syntax_error)
      else (case reduce 0 (ops s) (out s) of
              (SGroup # rest, o') \<Rightarrow> Inr \<lparr> ops = rest, out = o', want_operand = False \<rparr>
            | (SBin oper # rest, o') \<Rightarrow> Inl syntax_error
            | (SUn oper # rest, o') \<Rightarrow> Inl syntax_error
            | ([], o') \<Rightarrow> Inl syntax_error
            | (call # rest, arg # callee # o') \<Rightarrow>
                Inr \<lparr> ops = rest, out = OtherNode ''ast.Call'' # o', want_operand = False \<rparr>
            | _ \<Rightarrow> Inl syntax_error))"

fun parse_tokens :: "'x parse_state \<Rightarrow> 'x token list \<Rightarrow> pyexc + 'x node" where
  "parse_tokens s [] =
     (if want_operand s then Inl syntax_error
      else case reduce 0 (ops s) (out s) of
             ([], [tree]) \<Rightarrow> Inr tree
           | _ \<Rightarrow> Inl syntax_error)"
| "parse_tokens s (t # ts) =
     (case parse_step s t of Inl e \<Rightarrow> Inl e | Inr s' \<Rightarrow> parse_tokens s' ts)"

definition py_parse :: "'x float_ops \<Rightarrow> 'x parser" where
  "py_parse fl text =
     (if take 1 text = '' '' then Inl (Exc IndentationError ''unexpected indent (<unknown>, line 1)'')
      else case tokens fl text of
             Inl e \<Rightarrow> Inl e
           | Inr ts \<Rightarrow> parse_tokens \<lparr> ops = [], out = [], want_operand = True \<rparr> ts)"

text \<open>A float carrier for running the model: a float is the text of its literal, and
  arithmetic on floats is refused.\<close>

definition text_floats :: "string float_ops" where
  "text_floats = \<lparr> float_of_literal = (\<lambda>s. s),
     float_arith = (\<lambda>oper a b. Inl (Exc OverflowError ''float arithmetic is not modelled'')),
     float_neg = (\<lambda>s. CHR ''-'' # s),
     float_str = (\<lambda>s. s) \<rparr>"

section \<open>Reranker (app/rag/retrieval/reranker.py)\<close>

text \<open>
  The cross-encoder is an external model: \<open>predict\<close> takes the (query, content) pairs and
  returns one score per pair or raises. \<open>model = None\<close> is the reranker whose constructor
  could not load it.
\<close>

type_synonym predictor = "(string \<times> string) list \<Rightarrow> pyexc + rat list"

text \<open>
  The loop \<open>for doc, score in zip(documents, scores): doc["rerank_score"] = float(score)\<close>
  writes into the caller's dictionaries.
\<close>

fun attach_scores :: "document list \<Rightarrow> rat list \<Rightarrow> document list" where
  "attach_scores [] scores = []"
| "attach_scores (d # ds) [] = d # ds"
| "attach_scores (d # ds) (x # xs) = d\<lparr>rerank_score := Some x\<rparr> # attach_scores ds xs"

definition rerank_key :: "document \<Rightarrow> rat" where
  "rerank_key d = (case rerank_score d of None \<Rightarrow> 0 | Some x \<Rightarrow> x)"

text \<open>
  \<open>rerank\<close> returns the caller's list as the call leaves it (the same dictionaries, with
  the scores written so far) and the result, which never is an exception.
\<close>

definition rerank ::
  "settings \<Rightarrow> predictor option \<Rightarrow> string \<Rightarrow> document list \<Rightarrow> int option
     \<Rightarrow> document list \<times> (pyexc + document list)" where
  "rerank st model query documents top_k =
     (case model of
        None \<Rightarrow>
          (documents,
           Inr (case top_k of
                  None \<Rightarrow> documents
                | Some k \<Rightarrow> if k \<noteq> 0 then py_take k documents else documents))
      | Some predict \<Rightarrow>
          if documents = [] then (documents, Inr [])
          else
            let k = (case top_k of
                       None \<Rightarrow> RERANK_TOP_K st
                     | Some k \<Rightarrow> if k \<noteq> 0 then k else RERANK_TOP_K st)
            in if \<exists>d \<in> set documents. content d = None
               then (documents, Inr (py_take k documents))
               else
                 case predict (map (\<lambda>d. (query, the (content d))) documents) of
                   Inl e \<Rightarrow> (documents, Inr (py_take k documents))
                 | Inr scores \<Rightarrow>
                     let scored = attach_scores documents scores
                     in if \<exists>d \<in> set scored. rerank_score d = None
                        then (scored, Inr (py_take k scored))
                        else (scored, Inr (py_take k (sorted_desc rerank_key scored))))"

section \<open>BM25 retriever (app/rag/retrieval/bm25\_retriever.py)\<close>

text \<open>
  \<open>BM25Okapi\<close> comes from the library rank\_bm25: its constructor takes the tokenized
  corpus and its method \<open>get_scores\<close> the tokenized query; either may raise. Both are
  parameters of the model, \<open>'idx\<close> being the type of the built index.
\<close>

record 'idx bm25_lib =
  BM25Okapi :: "string list list \<Rightarrow> pyexc + 'idx"
  get_scores :: "'idx \<Rightarrow> string list \<Rightarrow> pyexc + rat list"

record 'idx bm25_retriever =
  corpus :: "document list"
  tokenized_corpus :: "string list list"
  bm25 :: "'idx option"

definition init_retriever :: "'idx bm25_retriever" where
  "init_retriever = \<lparr> corpus = [], tokenized_corpus = [], bm25 = None \<rparr>"

definition tokenize :: "string \<Rightarrow> string list" where
  "tokenize text = split (lower text)"

text \<open>
  \<open>build_index\<close> returns the retriever as the call leaves it and the exception it
  re-raises, if any: \<open>self.corpus\<close> is assigned before the chunks are validated.
\<close>

definition build_index ::
  "'idx bm25_lib \<Rightarrow> 'idx bm25_retriever \<Rightarrow> document list \<Rightarrow> 'idx bm25_retriever \<times> pyexc option" where
  "build_index lib self chunks =
     (if chunks = [] then (self, None)
      else
        let self1 = self\<lparr>corpus := chunks\<rparr>
        in if \<exists>c \<in> set chunks. content c = None
           then (self1, Some (Exc ValueError
                   (''Chunk missing required key: '' @ [CHR 0x27] @ ''content'' @ [CHR 0x27])))
           else
             let self2 = self1\<lparr>tokenized_corpus := map (\<lambda>c. tokenize (the (content c))) chunks\<rparr>
             in case BM25Okapi lib (tokenized_corpus self2) of
                  Inl e \<Rightarrow> (self2, Some e)
                | Inr idx \<Rightarrow> (self2\<lparr>bm25 := Some idx\<rparr>, None))"

definition bm25_result :: "document \<Rightarrow> nat \<Rightarrow> rat \<Rightarrow> document" where
  "bm25_result chunk idx sc =
     \<lparr> doc_id = Some (case doc_id chunk of
                        None \<Rightarrow> ''bm25_'' @ str_nat idx
                      | Some i \<Rightarrow> if i \<noteq> [] then i else ''bm25_'' @ str_nat idx),
       content = content chunk,
       metadata = metadata chunk,
       score = Some sc,
       distance = None,
       source = Some ''bm25'',
       chunk_index = Some (case chunk_index chunk of None \<Rightarrow> int idx | Some i \<Rightarrow> i),
       rrf_score = None, sources = None, rerank_score = None \<rparr>"

text \<open>The loop over \<open>ranked_indices\<close>; \<open>corpus[idx]\<close> and \<open>chunk["content"]\<close> may raise.\<close>

fun collect_results :: "document list \<Rightarrow> rat list \<Rightarrow> nat list \<Rightarrow> pyexc + document list" where
  "collect_results corp scores [] = Inr []"
| "collect_results corp scores (idx # rest) =
     (if scores ! idx \<le> 0 then collect_results corp scores rest
      else if length corp \<le> idx then Inl (Exc IndexError ''list index out of range'')
      else if content (corp ! idx) = None
        then Inl (Exc KeyError ([CHR 0x27] @ ''content'' @ [CHR 0x27]))
      else case collect_results corp scores rest of
             Inl e \<Rightarrow> Inl e
           | Inr results \<Rightarrow> Inr (bm25_result (corp ! idx) idx (scores ! idx) # results))"

definition ranked_indices :: "rat list \<Rightarrow> int \<Rightarrow> nat list" where
  "ranked_indices scores top_k = py_take top_k (sorted_desc (\<lambda>i. scores ! i) [0..<length scores])"

definition search ::
  "'idx bm25_lib \<Rightarrow> settings \<Rightarrow> 'idx bm25_retriever \<Rightarrow> string \<Rightarrow> int option
     \<Rightarrow> pyexc + document list" where
  "search lib st self query top_k =
     (let k = (case top_k of None \<Rightarrow> BM25_TOP_K st | Some k \<Rightarrow> k)
      in case bm25 self of
           None \<Rightarrow> Inr []
         | Some idx \<Rightarrow>
             if corpus self = [] then Inr []
             else
               case get_scores lib idx (tokenize query) of
                 Inl e \<Rightarrow> Inr []
               | Inr scores \<Rightarrow>
                   (case collect_results (corpus self) scores (ranked_indices scores k) of
                      Inl e \<Rightarrow> Inr []
                    | Inr results \<Rightarrow> Inr results))"

text \<open>A toy instance of the library, used to run the model: the score of a document is
  the number of its tokens that occur in the query.\<close>

definition toy_bm25 :: "(string list list) bm25_lib" where
  "toy_bm25 = \<lparr> BM25Okapi = (\<lambda>toks. Inr toks),
     get_scores = (\<lambda>idx q. Inr (map (\<lambda>doc. of_nat (length (filter (\<lambda>t. t \<in> set q) doc))) idx)) \<rparr>"

definition failing_predict :: predictor where
  "failing_predict pairs = Inl (Exc RuntimeError ''model failure'')"

section \<open>Tool registry (app/rag/llm/tools.py)\<close>

text \<open>
  \<open>get_current_date\<close> formats the clock with \<open>"%Y-%m-%d %H:%M:S"\<close>: the format ends in
  the letter S, not in the seconds. The clock reading is a parameter.
\<close>

record datetime =
  year :: nat
  month :: nat
  day :: nat
  hour :: nat
  minute :: nat
  second :: nat

definition pad2 :: "nat \<Rightarrow> string" where
  "pad2 n = (if n < 10 then CHR ''0'' # str_nat n else str_nat n)"

definition get_current_date :: "datetime \<Rightarrow> string" where
  "get_current_date now =
     str_nat (year now) @ ''-'' @ pad2 (month now) @ ''-'' @ pad2 (day now) @ '' ''
       @ pad2 (hour now) @ '':'' @ pad2 (minute now) @ '':S''"

text \<open>
  The registered callables as \<open>tool(**tool_args)\<close> calls them: a keyword the function
  does not take, or a missing \<open>expression\<close>, is a TypeError of the call.
\<close>

definition get_current_date_tool :: "datetime \<Rightarrow> tool" where
  "get_current_date_tool now args =
     (if args = [] then Inr (get_current_date now)
      else Inl (Exc TypeError ''get_current_date() got an unexpected keyword argument''))"

definition calculate_tool :: "'x parser \<Rightarrow> 'x float_ops \<Rightarrow> tool" where
  "calculate_tool parse fl args =
     (case args of
        [] \<Rightarrow> Inl (Exc TypeError ''calculate() missing 1 required positional argument'')
      | [(k, v)] \<Rightarrow>
          if k = ''expression'' then calculate parse fl v
          else Inl (Exc TypeError ''calculate() got an unexpected keyword argument'')
      | _ \<Rightarrow> Inl (Exc TypeError ''calculate() got an unexpected keyword argument''))"

definition default_registry :: "'x parser \<Rightarrow> 'x float_ops \<Rightarrow> datetime \<Rightarrow> registry" where
  "default_registry parse fl now =
     [''get_current_date'' \<mapsto> get_current_date_tool now, ''calculate'' \<mapsto> calculate_tool parse fl]"

section \<open>Workflow state (app/rag/workflow/state.py)\<close>

record run_metadata =
  steps :: "string list"
  retrieval_time_ms :: rat
  generation_time_ms :: rat
  documents_retrieved :: "nat option"
  documents_reranked :: "nat option"
  context_documents_used :: "nat option"

record rag_state =
  query :: string
  user_id :: int
  thread_id :: "string option"
  bm25_results :: "document list option"
  vector_results :: "document list option"
  hybrid_results :: "document list option"
  reranked_results :: "document list option"
  context_documents :: "document list option"
  answer :: "string option"
  tool_needed :: "bool option"
  tool_result :: "string option"
  state_metadata :: run_metadata
  error :: "string option"

definition create_initial_state :: "string \<Rightarrow> int \<Rightarrow> string option \<Rightarrow> rag_state" where
  "create_initial_state q uid tid =
     \<lparr> query = q, user_id = uid, thread_id = tid, bm25_results = None, vector_results = None,
       hybrid_results = None, reranked_results = None, context_documents = None,
       answer = None, tool_needed = None, tool_result = None,
       state_metadata = \<lparr> steps = [], retrieval_time_ms = 0, generation_time_ms = 0,
         documents_retrieved = None, documents_reranked = None,
         context_documents_used = None \<rparr>,
       error = None \<rparr>"

section \<open>Workflow nodes (app/rag/workflow/nodes.py)\<close>

text \<open>
  The collaborators of the nodes: the hybrid search (query, user, \<open>top_k\<close>), the model of
  the reranker, the language model behind \<open>generate_with_context\<close> (it returns
  \<open>result["answer"]\<close> or raises), the tool registry, and the two readings of the clock.
\<close>

record env =
  hybrid_search :: "string \<Rightarrow> int \<Rightarrow> int \<Rightarrow> pyexc + document list"
  reranker_model :: "predictor option"
  generate_with_context :: "string \<Rightarrow> document list \<Rightarrow> pyexc + string"
  tools :: registry
  app_settings :: settings
  retrieval_elapsed_ms :: rat
  generation_elapsed_ms :: rat

text \<open>Truth of an optional string: \<open>None\<close> and the empty string are false.\<close>

definition truthy :: "string option \<Rightarrow> bool" where
  "truthy v = (case v of None \<Rightarrow> False | Some s \<Rightarrow> s \<noteq> [])"

definition append_step :: "string \<Rightarrow> rag_state \<Rightarrow> rag_state" where
  "append_step name state =
     state\<lparr>state_metadata := (state_metadata state)\<lparr>steps := steps (state_metadata state) @ [name]\<rparr>\<rparr>"

definition retrieval_node :: "env \<Rightarrow> rag_state \<Rightarrow> rag_state" where
  "retrieval_node ev state =
     (case hybrid_search ev (query state) (user_id state) 10 of
        Inr results \<Rightarrow>
          (append_step ''retrieval'' (state\<lparr>hybrid_results := Some results\<rparr>))
            \<lparr>state_metadata :=
               (state_metadata (append_step ''retrieval'' state))
                 \<lparr>retrieval_time_ms := retrieval_elapsed_ms ev,
                  documents_retrieved := Some (length results)\<rparr>\<rparr>
      | Inl e \<Rightarrow>
          if exc_class_of e = ValueError \<or> exc_class_of e = RuntimeError
          then state\<lparr>error := Some (''Retrieval error: '' @ exc_str e)\<rparr>
          else state\<lparr>error := Some (''Unexpected retrieval error: '' @ exc_str e)\<rparr>)"

definition reranking_node :: "env \<Rightarrow> rag_state \<Rightarrow> rag_state" where
  "reranking_node ev state =
     (case hybrid_results state of
        None \<Rightarrow> state\<lparr>reranked_results := Some [], context_documents := Some []\<rparr>
      | Some hybrid \<Rightarrow>
          if hybrid = [] then state\<lparr>reranked_results := Some [], context_documents := Some []\<rparr>
          else
            case rerank (app_settings ev) (reranker_model ev) (query state) hybrid (Some 5) of
              (docs, Inr reranked) \<Rightarrow>
                (append_step ''reranking''
                   (state\<lparr>hybrid_results := Some docs, reranked_results := Some reranked,
                          context_documents := Some reranked\<rparr>))
                  \<lparr>state_metadata :=
                     (state_metadata (append_step ''reranking'' state))
                       \<lparr>documents_reranked := Some (length reranked)\<rparr>\<rparr>
            | (docs, Inl e) \<Rightarrow>
                state\<lparr>hybrid_results := Some docs, reranked_results := Some (py_take 5 docs),
                       context_documents := Some (py_take 5 docs)\<rparr>)"

definition tool_keywords :: "(string \<times> string list) list" where
  "tool_keywords =
     [(''date'', [''today'', ''current date'', ''what date'', ''what day'']),
      (''calculate'', [''calculate'', ''compute'', ''math'', ''sum'', ''multiply'', ''divide''])]"

definition tool_analysis_node :: "rag_state \<Rightarrow> rag_state" where
  "tool_analysis_node state =
     (let q = lower (query state);
          needed = (\<exists>(tool_type, keywords) \<in> set tool_keywords. \<exists>keyword \<in> set keywords. contains keyword q)
      in append_step ''tool_analysis'' (state\<lparr>tool_needed := Some needed\<rparr>))"

text \<open>\<open>re.findall(r"\d+", s)\<close>: the maximal runs of digits, from left to right.\<close>

fun findall_digits :: "string \<Rightarrow> string \<Rightarrow> string list" where
  "findall_digits cur [] = (if cur = [] then [] else [cur])"
| "findall_digits cur (c # cs) =
     (if is_digit c then findall_digits (cur @ [c]) cs
      else if cur = [] then findall_digits [] cs
      else cur # findall_digits [] cs)"

definition tool_execution_node :: "env \<Rightarrow> rag_state \<Rightarrow> rag_state" where
  "tool_execution_node ev state =
     (let q = lower (query state)
      in if contains ''date'' q \<or> contains ''today'' q then
           (case execute_tool (tools ev) ''get_current_date'' None of
              Inr result \<Rightarrow>
                append_step ''tool_execution'' (state\<lparr>tool_result := Some (''Current date: '' @ result)\<rparr>)
            | Inl e \<Rightarrow> state\<lparr>tool_result := Some (''Tool execution error: '' @ exc_str e)\<rparr>)
         else if contains ''calculate'' q \<or> contains ''compute'' q then
           (let numbers = findall_digits [] q
            in if 2 \<le> length numbers then
                 (case execute_tool (tools ev) ''calculate''
                         (Some [(''expression'', numbers ! 0 @ ''+'' @ numbers ! 1)]) of
                    Inr result \<Rightarrow>
                      append_step ''tool_execution''
                        (state\<lparr>tool_result := Some (''Calculation result: '' @ result)\<rparr>)
                  | Inl e \<Rightarrow> state\<lparr>tool_result := Some (''Tool execution error: '' @ exc_str e)\<rparr>)
               else append_step ''tool_execution'' state)
         else append_step ''tool_execution'' state)"

definition no_context_answer :: string where
  "no_context_answer = ''I couldn'' @ [CHR 0x27] @ ''t find any relevant information in your documents to answer this question. Please upload relevant documents first.''"

definition generation_node :: "env \<Rightarrow> rag_state \<Rightarrow> rag_state" where
  "generation_node ev state =
     (let no_context = (case context_documents state of None \<Rightarrow> True | Some docs \<Rightarrow> docs = [])
      in if no_context \<and> \<not> truthy (tool_result state)
         then state\<lparr>answer := Some no_context_answer\<rparr>
         else
           case (case context_documents state of
                   None \<Rightarrow> Inl (Exc TypeError
                             ([CHR 0x27] @ ''NoneType'' @ [CHR 0x27] @ '' object is not iterable''))
                 | Some docs \<Rightarrow> generate_with_context ev (query state) docs) of
             Inr text \<Rightarrow>
               (append_step ''generation''
                  (state\<lparr>answer := Some (if truthy (tool_result state)
                                          then the (tool_result state) @ [CHR 0x0A, CHR 0x0A] @ text
                                          else text)\<rparr>))
                 \<lparr>state_metadata :=
                    (state_metadata (append_step ''generation'' state))
                      \<lparr>generation_time_ms := generation_elapsed_ms ev,
                       context_documents_used :=
                         Some (length (case context_documents state of None \<Rightarrow> [] | Some docs \<Rightarrow> docs))\<rparr>\<rparr>
           | Inl e \<Rightarrow>
               if exc_class_of e = ValueError \<or> exc_class_of e = RuntimeError
               then state\<lparr>error := Some (''Generation error: '' @ exc_str e),
                          answer := Some ''I encountered a specific error while generating the answer. Please try again.''\<rparr>
               else state\<lparr>error := Some (''Unexpected generation error: '' @ exc_str e),
                          answer := Some ''I encountered an unexpected error while generating the answer. Please try again.''\<rparr>)"

definition error_node :: "rag_state \<Rightarrow> rag_state" where
  "error_node state =
     append_step ''error''
       (state\<lparr>answer := Some (''An error occurred: '' @ (case error state of None \<Rightarrow> ''None'' | Some e \<Rightarrow> e))\<rparr>)"

section \<open>Workflow graph (app/rag/workflow/graph.py)\<close>

datatype node_name = retrieval | reranking | tool_analysis | tool_execution | generation | error_state

definition should_use_tool :: "rag_state \<Rightarrow> node_name" where
  "should_use_tool state = (if tool_needed state = Some True then tool_execution else generation)"

definition check_error :: "rag_state \<Rightarrow> node_name" where
  "check_error state = (if truthy (error state) then error_state else reranking)"

fun run_node :: "env \<Rightarrow> node_name \<Rightarrow> rag_state \<Rightarrow> rag_state" where
  "run_node ev retrieval state = retrieval_node ev state"
| "run_node ev reranking state = reranking_node ev state"
| "run_node ev tool_analysis state = tool_analysis_node state"
| "run_node ev tool_execution state = tool_execution_node ev state"
| "run_node ev generation state = generation_node ev state"
| "run_node ev error_state state = error_node state"

text \<open>The edges of \<open>build_rag_graph\<close>; \<open>None\<close> is \<open>END\<close>.\<close>

fun next_node :: "node_name \<Rightarrow> rag_state \<Rightarrow> node_name option" where
  "next_node retrieval state = Some (check_error state)"
| "next_node reranking state = Some tool_analysis"
| "next_node tool_analysis state = Some (should_use_tool state)"
| "next_node tool_execution state = Some generation"
| "next_node generation state = None"
| "next_node error_state state = None"

fun node_rank :: "node_name \<Rightarrow> nat" where
  "node_rank retrieval = 5"
| "node_rank reranking = 4"
| "node_rank tool_analysis = 3"
| "node_rank tool_execution = 2"
| "node_rank generation = 1"
| "node_rank error_state = 0"

text \<open>
  A run from a node: the node updates the state, the edge picks the successor. It
  returns the nodes visited, in order, and the final state.
\<close>

function run_from :: "env \<Rightarrow> node_name \<Rightarrow> rag_state \<Rightarrow> node_name list \<times> rag_state" where
  "run_from ev n state =
     (let state' = run_node ev n state
      in case next_node n state' of
           None \<Rightarrow> ([n], state')
         | Some n' \<Rightarrow> (case run_from ev n' state' of (visited, final) \<Rightarrow> (n # visited, final)))"
  by pat_completeness auto
termination
proof (relation "measure (\<lambda>(ev, n, state). node_rank n)")
  show "wf (measure (\<lambda>(ev, n, state). node_rank n))" by simp
next
  fix ev :: env and n :: node_name and state state' :: rag_state and n' :: node_name
  assume "next_node n state' = Some n'"
  then have "node_rank n' < node_rank n"
    by (cases n) (auto simp: check_error_def should_use_tool_def)
  then show "((ev, n', state'), (ev, n, state)) \<in> measure (\<lambda>(ev, n, state). node_rank n)"
    by simp
qed

declare run_from.simps [simp del]

definition run_graph :: "env \<Rightarrow> string \<Rightarrow> int \<Rightarrow> string option \<Rightarrow> node_name list \<times> rag_state" where
  "run_graph ev q uid tid = run_from ev retrieval (create_initial_state q uid tid)"

text \<open>Collaborators for running the model: a search that finds one document, a search
  that fails, a language model that answers with an empty text.\<close>

definition toy_env :: "(pyexc + document list) \<Rightarrow> (pyexc + string) \<Rightarrow> env" where
  "toy_env found reply =
     \<lparr> hybrid_search = (\<lambda>q uid k. found), reranker_model = None,
       generate_with_context = (\<lambda>q docs. reply),
       tools = default_registry (py_parse text_floats) text_floats
                 \<lparr> year = 2024, month = 5, day = 7, hour = 9, minute = 3, second = 0 \<rparr>,
       app_settings = default_settings, retrieval_elapsed_ms = 12, generation_elapsed_ms = 34 \<rparr>"

section \<open>Hybrid retriever: reciprocal rank fusion (app/rag/retrieval/hybrid\_retriever.py)\<close>

record hybrid_retriever =
  rrf_k :: nat

definition init_hybrid_retriever :: hybrid_retriever where
  "init_hybrid_retriever = \<lparr> rrf_k = 60 \<rparr>"

text \<open>
  An entry of the dictionary \<open>fused\<close>; the dictionary itself is the list of its items in
  insertion order, which is the order \<open>fused.values()\<close> yields.
\<close>

record fused_entry =
  fused_result :: document
  fused_score :: rat
  fused_sources :: "string list"

type_synonym fused = "(string \<times> fused_entry) list"

text \<open>\<open>result.get("id") or f"{source}_{rank}"\<close>: an absent or empty id is replaced.\<close>

definition chunk_key :: "string \<Rightarrow> nat \<Rightarrow> document \<Rightarrow> string" where
  "chunk_key src rank result =
     (case doc_id result of
        None \<Rightarrow> src @ ''_'' @ str_nat rank
      | Some i \<Rightarrow> if i \<noteq> [] then i else src @ ''_'' @ str_nat rank)"

definition add_result :: "arith \<Rightarrow> nat \<Rightarrow> string \<Rightarrow> fused \<Rightarrow> nat \<times> document \<Rightarrow> fused" where
  "add_result ar k src fused item =
     (let rank = fst item; result = snd item;
          chunk_id = chunk_key src rank result;
          sc = fdiv ar 1 (of_nat (k + rank + 1));
          fused1 = (if chunk_id \<notin> fst ` set fused
                    then fused @ [(chunk_id, \<lparr> fused_result = result, fused_score = 0,
                                               fused_sources = [] \<rparr>)]
                    else fused)
      in map (\<lambda>(key, e). (key, if key = chunk_id
                                 then e\<lparr>fused_score := fadd ar (fused_score e) sc,
                                        fused_sources := List.insert src (fused_sources e)\<rparr>
                                 else e)) fused1)"

definition add_results :: "arith \<Rightarrow> nat \<Rightarrow> fused \<Rightarrow> document list \<Rightarrow> string \<Rightarrow> fused" where
  "add_results ar k fused results src = foldl (add_result ar k src) fused (enumerate 0 results)"

text \<open>The dictionary \<open>fused\<close> after both calls of \<open>add_results\<close>.\<close>

definition fused_table ::
  "arith \<Rightarrow> hybrid_retriever \<Rightarrow> document list \<Rightarrow> document list \<Rightarrow> fused" where
  "fused_table ar self keyword_results semantic_results =
     add_results ar (rrf_k self) (add_results ar (rrf_k self) [] keyword_results ''bm25'')
       semantic_results ''vector''"

definition finalize :: "arith \<Rightarrow> fused_entry \<Rightarrow> document" where
  "finalize ar item =
     (fused_result item)\<lparr> rrf_score := Some (fround ar (fused_score item) 6),
                           sources := Some (sort (fused_sources item)),
                           source := Some ''hybrid'' \<rparr>"

definition reciprocal_rank_fusion ::
  "arith \<Rightarrow> hybrid_retriever \<Rightarrow> document list \<Rightarrow> document list \<Rightarrow> int \<Rightarrow> document list" where
  "reciprocal_rank_fusion ar self keyword_results semantic_results top_k =
     (let ranked = sorted_desc fused_score
                     (map snd (fused_table ar self keyword_results semantic_results))
      in map (finalize ar) (py_take top_k ranked))"

text \<open>
  The keys under which the results of one list are entered, and the reciprocal-rank
  terms that the results of one list entered under a given key contribute, in the order
  of the list (the ranks counted from \<open>n\<close>); \<open>score_at\<close> reads the score accumulated under
  a key, 0 for a key not entered.
\<close>

definition keys_of :: "string \<Rightarrow> document list \<Rightarrow> string list" where
  "keys_of src results = map (\<lambda>item. chunk_key src (fst item) (snd item)) (enumerate 0 results)"

definition key_terms :: "arith \<Rightarrow> nat \<Rightarrow> string \<Rightarrow> nat \<Rightarrow> document list \<Rightarrow> string \<Rightarrow> rat list" where
  "key_terms ar k src n results key =
     map (\<lambda>item. fdiv ar 1 (of_nat (k + fst item + 1)))
       (filter (\<lambda>item. chunk_key src (fst item) (snd item) = key) (enumerate n results))"

definition score_at :: "fused \<Rightarrow> string \<Rightarrow> rat" where
  "score_at fused key = (case map_of fused key of None \<Rightarrow> 0 | Some e \<Rightarrow> fused_score e)"

section \<open>Text chunker (app/rag/processing/chunking.py)\<close>

record text_chunker =
  chunk_size :: int
  chunk_overlap :: int

text \<open>The constructor: \<open>chunk_size or settings.CHUNK_SIZE\<close>, so 0 stands for the default.\<close>

definition new_text_chunker :: "settings \<Rightarrow> int option \<Rightarrow> int option \<Rightarrow> text_chunker" where
  "new_text_chunker st size_arg overlap_arg =
     \<lparr> chunk_size = (case size_arg of None \<Rightarrow> CHUNK_SIZE st
                       | Some c \<Rightarrow> if c \<noteq> 0 then c else CHUNK_SIZE st),
       chunk_overlap = (case overlap_arg of None \<Rightarrow> CHUNK_OVERLAP st
                          | Some c \<Rightarrow> if c \<noteq> 0 then c else CHUNK_OVERLAP st) \<rparr>"

text \<open>
  A chunk: its text, the caller's metadata and the three entries the chunker adds
  (\<open>chunk_index\<close> is stored twice in the source, with one value).
\<close>

record text_chunk =
  chunk_content :: string
  base_metadata :: "(string \<times> string) list"
  chunk_number :: nat
  start_char :: int
  end_char :: int

text \<open>
  A slice bound of Python on a sequence of length \<open>n\<close>: a negative bound counts from the
  end, and every bound is clipped to \<open>[0, n]\<close>.
\<close>

definition py_index :: "int \<Rightarrow> nat \<Rightarrow> nat" where
  "py_index i n = (if i < 0 then nat (i + int n) else min (nat i) n)"

definition py_slice :: "'a list \<Rightarrow> int \<Rightarrow> int \<Rightarrow> 'a list" where
  "py_slice xs start stop =
     (let s = py_index start (length xs); e = py_index stop (length xs)
      in take (e - s) (drop s xs))"

text \<open>
  \<open>text.rfind(sub, start, stop)\<close> for a non-empty \<open>sub\<close>: the highest index at which
  \<open>sub\<close> occurs within \<open>text[start:stop]\<close>, or \<open>-1\<close>.
\<close>

definition rfind :: "string \<Rightarrow> string \<Rightarrow> int \<Rightarrow> int \<Rightarrow> int" where
  "rfind text sub start stop =
     (let s = py_index start (length text); e = py_index stop (length text); m = length sub
      in case filter (\<lambda>i. take m (drop i text) = sub) (rev [s ..< Suc e - m]) of
           [] \<Rightarrow> - 1
         | i # rest \<Rightarrow> int i)"

definition boundaries :: "string list" where
  "boundaries = [''. '', ''? '', ''! '', [CHR 0x0A, CHR 0x0A], [CHR 0x0A]]"

text \<open>The \<open>for\<close> loop over the boundaries: the new end for the first one found.\<close>

fun find_boundary :: "string \<Rightarrow> int \<Rightarrow> int \<Rightarrow> string list \<Rightarrow> int option" where
  "find_boundary text start stop [] = None"
| "find_boundary text start stop (b # bs) =
     (let boundary_pos = rfind text b start stop
      in if boundary_pos \<noteq> - 1 then Some (boundary_pos + int (length b))
         else find_boundary text start stop bs)"

definition chunk_end :: "int \<Rightarrow> string \<Rightarrow> int \<Rightarrow> int" where
  "chunk_end csize text start =
     (let end0 = start + csize;
          end1 = (if end0 < int (length text)
                  then (case find_boundary text start end0 boundaries of
                          Some e \<Rightarrow> e
                        | None \<Rightarrow>
                            let space_pos = rfind text '' '' start end0
                            in if space_pos \<noteq> - 1 then space_pos + 1 else end0)
                  else end0)
      in if end1 \<le> start then min (start + csize) (int (length text)) else end1)"

definition next_start :: "int \<Rightarrow> int \<Rightarrow> int \<Rightarrow> int \<Rightarrow> int" where
  "next_start csize overlap prev_start stop =
     (let start = stop - overlap
      in if start \<le> prev_start then prev_start + max 1 (csize - overlap) else start)"

function chunk_loop ::
  "int \<Rightarrow> int \<Rightarrow> string \<Rightarrow> (string \<times> string) list \<Rightarrow> int \<Rightarrow> nat \<Rightarrow> text_chunk list" where
  "chunk_loop csize overlap text md start idx =
     (if start < int (length text)
      then \<lparr> chunk_content = strip (py_slice text start (chunk_end csize text start)),
             base_metadata = md, chunk_number = idx, start_char = start,
             end_char = chunk_end csize text start \<rparr>
           # chunk_loop csize overlap text md
               (next_start csize overlap start (chunk_end csize text start)) (Suc idx)
      else [])"
  by pat_completeness auto
termination
proof (relation "measure (\<lambda>(csize, overlap, text, md, start, idx). nat (int (length text) - start))")
  show "wf (measure (\<lambda>(csize, overlap, text, md, start, idx). nat (int (length text) - start)))"
    by simp
next
  fix csize overlap :: int and body :: string and md :: "(string \<times> string) list"
    and start :: int and idx :: nat
  assume "start < int (length body)"
  moreover have "start < next_start csize overlap start (chunk_end csize body start)"
    by (simp add: next_start_def Let_def max_def)
  ultimately show "((csize, overlap, body, md,
        next_start csize overlap start (chunk_end csize body start), Suc idx),
       (csize, overlap, body, md, start, idx))
      \<in> measure (\<lambda>(csize, overlap, body, md, start, idx). nat (int (length body) - start))"
    by simp
qed

declare chunk_loop.simps [simp del]

definition chunk_text :: "text_chunker \<Rightarrow> string \<Rightarrow> (string \<times> string) list \<Rightarrow> text_chunk list" where
  "chunk_text self text md =
     (if text = [] \<or> strip text = [] then []
      else chunk_loop (chunk_size self) (chunk_overlap self) text md 0 0)"

text \<open>
  The spec's reading of "concatenating the chunks with the overlaps removed": each chunk
  contributes its content without the characters that lie before the end of the
  previous chunk.
\<close>

fun concat_without_overlap :: "int \<Rightarrow> text_chunk list \<Rightarrow> string" where
  "concat_without_overlap prev_end [] = []"
| "concat_without_overlap prev_end (c # cs) =
     drop (nat (prev_end - start_char c)) (chunk_content c)
       @ concat_without_overlap (end_char c) cs"

definition two_chunks :: "document list" where
  "two_chunks = [mk_doc ''a'' None, mk_doc ''b'' None]"

section \<open>Theorems: tool executor\<close>

definition raising_tool :: "string \<Rightarrow> tool" where
  "raising_tool msg args = Inl (Exc RuntimeError msg)"

text \<open>
  C9, as stated, fails in its last part: the string built from a raised exception holds
  the exception's text only, so two different tools that fail with the same text give the
  same string, which therefore cannot identify the tool.
\<close>

theorem execute_tool_error_not_identifying:
  "execute_tool [''alpha'' \<mapsto> raising_tool ''boom'', ''beta'' \<mapsto> raising_tool ''boom''] ''alpha'' None
     = Inr ''Error executing tool: boom''
   \<and> execute_tool [''alpha'' \<mapsto> raising_tool ''boom'', ''beta'' \<mapsto> raising_tool ''boom''] ''beta'' None
     = Inr ''Error executing tool: boom''"
  by (simp add: execute_tool_def get_tool_def raising_tool_def)

text \<open>
  C9, amended: for every registry, tool name and argument map, \<open>execute_tool\<close> returns a
  string and never raises; for an unregistered name the string is
  \<open>Error: Tool '<name>' not found\<close>; when the registered tool raises, the string is
  \<open>Error executing tool: \<close> followed by the text of the exception (the name of the tool
  is not part of it); when the tool returns, its result is passed on.
\<close>

theorem execute_tool_total:
  "(\<exists>s. execute_tool reg name args = Inr s)
   \<and> (reg name = None \<longrightarrow>
        execute_tool reg name args
          = Inr (''Error: Tool '' @ [CHR 0x27] @ name @ [CHR 0x27] @ '' not found''))
   \<and> (\<forall>t e. reg name = Some t \<and> t (case args of None \<Rightarrow> [] | Some a \<Rightarrow> a) = Inl e \<longrightarrow>
        execute_tool reg name args = Inr (''Error executing tool: '' @ exc_str e))
   \<and> (\<forall>t r. reg name = Some t \<and> t (case args of None \<Rightarrow> [] | Some a \<Rightarrow> a) = Inr r \<longrightarrow>
        execute_tool reg name args = Inr r)"
  by (auto simp: execute_tool_def get_tool_def Let_def split: option.splits sum.splits)

theorem execute_tool_total_witness:
  "execute_tool [''alpha'' \<mapsto> raising_tool ''boom''] ''gamma'' None
     = Inr (''Error: Tool '' @ [CHR 0x27] @ ''gamma'' @ [CHR 0x27] @ '' not found'')
   \<and> execute_tool [''alpha'' \<mapsto> raising_tool ''boom''] ''alpha'' None
     = Inr ''Error executing tool: boom''"
  using execute_tool_total [of "[''alpha'' \<mapsto> raising_tool ''boom'']" "''gamma''" None]
    execute_tool_total [of "[''alpha'' \<mapsto> raising_tool ''boom'']" "''alpha''" None]
  by (simp add: raising_tool_def)

section \<open>Theorems: confidence\<close>







section \<open>Theorems: reranker\<close>

text \<open>
  C5, as stated, fails at \<open>top_k = 0\<close>: the degraded reranker tests \<open>top_k\<close> for
  truth, so it returns both documents where the first 0 documents are the empty list.
\<close>

theorem rerank_degraded_top_k_zero:
  "snd (rerank default_settings None ''q'' [mk_doc ''a'' None, mk_doc ''b'' None] (Some 0))
     \<noteq> Inr (take 0 [mk_doc ''a'' None, mk_doc ''b'' None])"
  by (simp add: rerank_def)

text \<open>
  C5, amended: without a model, \<open>rerank\<close> returns the first \<open>top_k\<close> documents
  unchanged when \<open>top_k \<ge> 1\<close> and all the documents unchanged when \<open>top_k\<close> is 0 or
  not given; no \<open>rerank_score\<close> is written and nothing is raised. With a model whose
  \<open>predict\<close> raises, it returns the unchanged input list cut with \<open>[:k]\<close>, where \<open>k\<close>
  is \<open>top_k\<close>, or \<open>RERANK_TOP_K\<close> when \<open>top_k\<close> is 0 or not given. In no case does
  \<open>rerank\<close> raise.
\<close>

theorem rerank_degraded:
  "(0 < k \<longrightarrow> rerank st None q documents (Some k) = (documents, Inr (take (nat k) documents)))
   \<and> rerank st None q documents (Some 0) = (documents, Inr documents)
   \<and> rerank st None q documents None = (documents, Inr documents)
   \<and> (\<forall>e. documents \<noteq> [] \<and> (\<forall>d \<in> set documents. content d \<noteq> None)
          \<and> predict (map (\<lambda>d. (q, the (content d))) documents) = Inl e \<longrightarrow>
        rerank st (Some predict) q documents top_k
          = (documents,
             Inr (py_take (case top_k of None \<Rightarrow> RERANK_TOP_K st
                           | Some k \<Rightarrow> if k \<noteq> 0 then k else RERANK_TOP_K st) documents)))
   \<and> (\<exists>res. snd (rerank st model q documents top_k) = Inr res)"
  by (auto simp: rerank_def py_take_def Let_def split: option.splits sum.splits)

theorem rerank_degraded_witness:
  "rerank default_settings None ''q'' [mk_doc ''a'' None, mk_doc ''b'' None] (Some 1)
     = ([mk_doc ''a'' None, mk_doc ''b'' None], Inr [mk_doc ''a'' None])
   \<and> rerank default_settings (Some failing_predict) ''q'' [mk_doc ''a'' None, mk_doc ''b'' None] (Some 1)
     = ([mk_doc ''a'' None, mk_doc ''b'' None], Inr [mk_doc ''a'' None])"
  using rerank_degraded [of 1 default_settings "''q''" "[mk_doc ''a'' None, mk_doc ''b'' None]"
      failing_predict "Some 1" None]
  by (simp add: failing_predict_def mk_doc_def py_take_def)

section \<open>Theorems: BM25 retriever\<close>

lemma collect_results_props:
  "collect_results corp scores is = Inr res \<Longrightarrow>
     length res \<le> length is \<and> (\<forall>d \<in> set res. \<exists>s. score d = Some s \<and> 0 < s)"
proof (induction "is" arbitrary: res)
  case Nil
  then show ?case by simp
next
  case (Cons idx rest)
  show ?case
  proof (cases "scores ! idx \<le> 0")
    case True
    with Cons show ?thesis by fastforce
  next
    case False
    with Cons.prems obtain r where r: "collect_results corp scores rest = Inr r"
      and res: "res = bm25_result (corp ! idx) idx (scores ! idx) # r"
      by (auto split: if_splits sum.splits)
    from Cons.IH [OF r] False res show ?thesis
      by (auto simp: bm25_result_def)
  qed
qed

lemma length_ranked_indices: "0 \<le> k \<Longrightarrow> length (ranked_indices scores k) \<le> nat k"
  by (simp add: ranked_indices_def py_take_def)

lemma search_unbuilt: "bm25 self = None \<or> corpus self = [] \<Longrightarrow> search lib st self q top_k = Inr []"
  by (auto simp: search_def Let_def split: option.splits)

lemma search_returns: "\<exists>res. search lib st self q top_k = Inr res"
  by (auto simp: search_def Let_def split: option.splits sum.splits)

lemma search_props:
  assumes "search lib st self q top_k = Inr res"
  shows "(\<forall>d \<in> set res. \<exists>s. score d = Some s \<and> 0 < s)
     \<and> (0 \<le> (case top_k of None \<Rightarrow> BM25_TOP_K st | Some k \<Rightarrow> k) \<longrightarrow>
          length res \<le> nat (case top_k of None \<Rightarrow> BM25_TOP_K st | Some k \<Rightarrow> k))"
proof (cases "res = []")
  case True
  then show ?thesis by simp
next
  case False
  let ?k = "case top_k of None \<Rightarrow> BM25_TOP_K st | Some k \<Rightarrow> k"
  from assms False obtain idx scores where
    "collect_results (corpus self) scores (ranked_indices scores ?k) = Inr res"
    by (auto simp: search_def Let_def split: option.splits sum.splits if_splits)
  from collect_results_props [OF this] length_ranked_indices [of ?k scores]
  show ?thesis by fastforce
qed

lemma build_index_failed_keeps_bm25:
  "snd (build_index lib self chunks) \<noteq> None \<Longrightarrow> bm25 (fst (build_index lib self chunks)) = bm25 self"
  by (auto simp: build_index_def Let_def split: if_splits sum.splits)

text \<open>
  C6: \<open>search\<close> on a retriever that was never built, that was built with no chunks, or
  whose only builds failed, returns the empty list; \<open>build_index\<close> with no chunks leaves
  the retriever as it was; and for every retriever and q \<open>search\<close> returns a list
  (it never raises) in which every result has a positive score and whose length is at
  most \<open>top_k\<close> (\<open>BM25_TOP_K\<close> when not given), \<open>top_k\<close> being a count, that is not
  negative.
\<close>

theorem bm25_search_empty_and_capped:
  "search lib st init_retriever q top_k = Inr []
   \<and> build_index lib self [] = (self, None)
   \<and> search lib st (fst (build_index lib init_retriever [])) q top_k = Inr []
   \<and> (bm25 self = None \<and> snd (build_index lib self chunks) \<noteq> None \<longrightarrow>
        search lib st (fst (build_index lib self chunks)) q top_k = Inr [])
   \<and> (\<exists>res. search lib st self q top_k = Inr res
        \<and> (\<forall>d \<in> set res. \<exists>s. score d = Some s \<and> 0 < s)
        \<and> (0 \<le> (case top_k of None \<Rightarrow> BM25_TOP_K st | Some k \<Rightarrow> k) \<longrightarrow>
             length res \<le> nat (case top_k of None \<Rightarrow> BM25_TOP_K st | Some k \<Rightarrow> k)))"
proof -
  have a: "search lib st init_retriever q top_k = Inr []"
    by (rule search_unbuilt) (simp add: init_retriever_def)
  have b: "build_index lib self [] = (self, None)"
    by (simp add: build_index_def)
  have c: "search lib st (fst (build_index lib init_retriever [])) q top_k = Inr []"
    by (simp add: build_index_def a)
  have d: "bm25 self = None \<and> snd (build_index lib self chunks) \<noteq> None \<longrightarrow>
        search lib st (fst (build_index lib self chunks)) q top_k = Inr []"
    using build_index_failed_keeps_bm25 [of lib self chunks] search_unbuilt by metis
  obtain res where r: "search lib st self q top_k = Inr res"
    using search_returns by blast
  from search_props [OF r] r a b c d show ?thesis by blast
qed

theorem bm25_search_empty_and_capped_witness:
  "search toy_bm25 default_settings (fst (build_index toy_bm25 init_retriever two_chunks)) ''text'' (Some 1)
     = Inr [bm25_result (mk_doc ''a'' None) 0 1]
   \<and> search toy_bm25 default_settings (fst (build_index toy_bm25 init_retriever two_chunks)) ''other'' (Some 1)
     = Inr []"
  using bm25_search_empty_and_capped [of toy_bm25 default_settings "''text''" "Some 1"
      "fst (build_index toy_bm25 init_retriever two_chunks)" "[]"]
  by (simp add: search_def build_index_def toy_bm25_def init_retriever_def two_chunks_def mk_doc_def
      tokenize_def split_def lower_def lower_char_def is_space_def ranked_indices_def py_take_def
      sorted_desc_def bm25_result_def default_settings_def Let_def)

section \<open>Theorems: safe evaluator\<close>

lemma py_parse_sum_product:
  "py_parse fl ''1+2*3'' =
     Inr (BinOp (Constant (CInt 1)) Add (BinOp (Constant (CInt 2)) Mult (Constant (CInt 3))))"
  by (simp add: py_parse_def is_digit_def int_of_digits_def cons_token_def push_binop_def)

lemma py_parse_one_by_zero:
  "py_parse fl ''1/0'' = Inr (BinOp (Constant (CInt 1)) Div (Constant (CInt 0)))"
  by (simp add: py_parse_def is_digit_def int_of_digits_def cons_token_def push_binop_def)

lemma py_parse_with_blanks:
  "py_parse fl ''1 + 2'' = Inr (BinOp (Constant (CInt 1)) Add (Constant (CInt 2)))"
  by (simp add: py_parse_def is_digit_def int_of_digits_def cons_token_def push_binop_def)

lemma py_parse_modulo:
  "py_parse fl ''2%0'' = Inr (BinOp (Constant (CInt 2)) Mod (Constant (CInt 0)))"
  by (simp add: py_parse_def is_digit_def int_of_digits_def cons_token_def push_binop_def)

lemma calculate_sum_product: "calculate (py_parse fl) fl ''1+2*3'' = Inr ''7''"
  by (simp add: calculate_def allowed_chars_def safe_eval_def py_parse_sum_product int_binop_def
      py_str_def str_int_def str_nat.simps digit_char_def)

lemma calculate_one_by_zero:
  "calculate (py_parse fl) fl ''1/0'' = Inr ''Error: Invalid expression: division by zero''"
  by (simp add: calculate_def allowed_chars_def safe_eval_def py_parse_one_by_zero int_binop_def
      reraise_def caught_by_safe_eval_def)

lemma calculate_rejects:
  "\<exists>c \<in> set expression. c \<notin> allowed_chars \<Longrightarrow>
     calculate parse fl expression = Inr ''Error: Invalid characters in expression''"
  by (auto simp: calculate_def)

lemma calculate_returns: "\<exists>s. calculate parse fl expression = Inr s"
  by (auto simp: calculate_def split: sum.splits)

lemma calculate_error:
  "\<forall>c \<in> set expression. c \<in> allowed_chars \<Longrightarrow> safe_eval parse fl expression = Inl e \<Longrightarrow>
     calculate parse fl expression = Inr (''Error: '' @ exc_str e)"
  by (auto simp: calculate_def)

lemma safe_eval_parse_error:
  "parse expression = Inl e \<Longrightarrow> caught_by_safe_eval (exc_class_of e) \<Longrightarrow>
     safe_eval parse fl expression = Inl (Exc ValueError (''Invalid expression: '' @ exc_str e))"
  by (simp add: safe_eval_def reraise_def)

lemma safe_eval_eval_error:
  "parse expression = Inr tree \<Longrightarrow> eval_node fl tree = Inl e \<Longrightarrow>
     caught_by_safe_eval (exc_class_of e) \<Longrightarrow>
     safe_eval parse fl expression = Inl (Exc ValueError (''Invalid expression: '' @ exc_str e))"
  by (simp add: safe_eval_def reraise_def)

lemma eval_node_zero_division:
  "eval_node fl left = Inr (PInt a) \<Longrightarrow> eval_node fl right = Inr (PInt 0) \<Longrightarrow>
     eval_node fl (BinOp left Div right) = Inl (Exc ZeroDivisionError ''division by zero'')
     \<and> eval_node fl (BinOp left Mod right) = Inl (Exc ZeroDivisionError ''integer modulo by zero'')"
  by (simp add: int_binop_def)

text \<open>
  C1, as stated, fails for the blank: it is not among \<open>0-9 + - * / % ( ) .\<close>, yet the
  filter of \<open>calculate\<close> lets it pass, and \<open>1 + 2\<close> is evaluated to 3.
\<close>

theorem calculate_accepts_blank:
  "CHR '' '' \<in> set ''1 + 2'' \<and> CHR '' '' \<notin> set ''0123456789+-*/%().''
   \<and> calculate (py_parse text_floats) text_floats ''1 + 2'' = Inr ''3''"
  by (simp add: calculate_def allowed_chars_def safe_eval_def py_parse_with_blanks int_binop_def
      py_str_def str_int_def str_nat.simps digit_char_def)

text \<open>
  C1, amended: \<open>calculate\<close> evaluates \<open>1+2*3\<close> to 7 and answers \<open>1/0\<close> with the string
  \<open>Error: Invalid expression: division by zero\<close>. An expression with a character other
  than the digits, \<open>+ - * / % ( ) .\<close> and the blank is answered with
  \<open>Error: Invalid characters in expression\<close>, whatever the parser and the arithmetic
  would do with it. \<open>calculate\<close> always returns a string: when \<open>_safe_eval\<close> raises, the
  string is \<open>Error: \<close> and the text of the exception. \<open>_safe_eval\<close> raises a ValueError
  \<open>Invalid expression: ...\<close> for a syntax error of the parser, for a division or a modulo
  of integers by zero, for an operator outside its table and for any node it does not
  support.
\<close>

theorem calculate_safe:
  "calculate (py_parse fl) fl ''1+2*3'' = Inr ''7''
   \<and> calculate (py_parse fl) fl ''1/0'' = Inr ''Error: Invalid expression: division by zero''
   \<and> ((\<exists>c \<in> set expression. c \<notin> set ''0123456789+-*/%(). '') \<longrightarrow>
        calculate parse fl expression = Inr ''Error: Invalid characters in expression'')
   \<and> (\<exists>s. calculate parse fl expression = Inr s)
   \<and> (\<forall>e. (\<forall>c \<in> set expression. c \<in> set ''0123456789+-*/%(). '')
          \<and> safe_eval parse fl expression = Inl e \<longrightarrow>
        calculate parse fl expression = Inr (''Error: '' @ exc_str e))
   \<and> (\<forall>m. parse expression = Inl (Exc SyntaxError m) \<longrightarrow>
        safe_eval parse fl expression = Inl (Exc ValueError (''Invalid expression: '' @ m)))
   \<and> (\<forall>tree e. parse expression = Inr tree \<and> eval_node fl tree = Inl e
          \<and> exc_class_of e \<in> {KeyError, TypeError, ZeroDivisionError} \<longrightarrow>
        safe_eval parse fl expression = Inl (Exc ValueError (''Invalid expression: '' @ exc_str e)))
   \<and> (\<forall>left right a. eval_node fl left = Inr (PInt a) \<and> eval_node fl right = Inr (PInt 0) \<longrightarrow>
        eval_node fl (BinOp left Div right) = Inl (Exc ZeroDivisionError ''division by zero'')
        \<and> eval_node fl (BinOp left Mod right)
            = Inl (Exc ZeroDivisionError ''integer modulo by zero''))
   \<and> (\<forall>left right. eval_node fl (BinOp left FloorDiv right)
        = Inl (Exc KeyError (class_repr ''ast.FloorDiv'')))
   \<and> (\<forall>name. eval_node fl (OtherNode name)
        = Inl (Exc TypeError (''Unsupported AST node: '' @ class_repr name)))"
proof -
  have chars: "set ''0123456789+-*/%(). '' = allowed_chars"
    by (auto simp: allowed_chars_def)
  have c3: "(\<exists>c \<in> set expression. c \<notin> allowed_chars) \<longrightarrow>
        calculate parse fl expression = Inr ''Error: Invalid characters in expression''"
    using calculate_rejects [of expression parse fl] by blast
  have c5: "\<forall>e. (\<forall>c \<in> set expression. c \<in> allowed_chars)
          \<and> safe_eval parse fl expression = Inl e \<longrightarrow>
        calculate parse fl expression = Inr (''Error: '' @ exc_str e)"
    using calculate_error [of expression parse fl] by blast
  have c6: "\<forall>m. parse expression = Inl (Exc SyntaxError m) \<longrightarrow>
        safe_eval parse fl expression = Inl (Exc ValueError (''Invalid expression: '' @ m))"
    by (simp add: safe_eval_def reraise_def caught_by_safe_eval_def)
  have c7: "\<forall>tree e. parse expression = Inr tree \<and> eval_node fl tree = Inl e
          \<and> exc_class_of e \<in> {KeyError, TypeError, ZeroDivisionError} \<longrightarrow>
        safe_eval parse fl expression = Inl (Exc ValueError (''Invalid expression: '' @ exc_str e))"
    by (auto simp: safe_eval_def reraise_def caught_by_safe_eval_def)
  have c8: "\<forall>left right a. eval_node fl left = Inr (PInt a) \<and> eval_node fl right = Inr (PInt 0) \<longrightarrow>
        eval_node fl (BinOp left Div right) = Inl (Exc ZeroDivisionError ''division by zero'')
        \<and> eval_node fl (BinOp left Mod right)
            = Inl (Exc ZeroDivisionError ''integer modulo by zero'')"
    using eval_node_zero_division [of fl] by blast
  have c9: "\<forall>left right. eval_node fl (BinOp left FloorDiv right)
        = Inl (Exc KeyError (class_repr ''ast.FloorDiv''))"
    by simp
  have c10: "\<forall>name. eval_node fl (OtherNode name)
        = Inl (Exc TypeError (''Unsupported AST node: '' @ class_repr name))"
    by simp
  show ?thesis
    unfolding chars
    by (intro conjI calculate_sum_product calculate_one_by_zero c3 calculate_returns c5 c6 c7 c8
        c9 c10)
qed

theorem calculate_safe_witness:
  "calculate (py_parse text_floats) text_floats ''abs(1)''
     = Inr ''Error: Invalid characters in expression''
   \<and> calculate (py_parse text_floats) text_floats ''2%0''
     = Inr ''Error: Invalid expression: integer modulo by zero''"
proof -
  have a: "\<exists>c \<in> set ''abs(1)''. c \<notin> set ''0123456789+-*/%(). ''"
    by simp
  have b: "\<forall>c \<in> set ''2%0''. c \<in> set ''0123456789+-*/%(). ''"
    by simp
  have c: "safe_eval (py_parse text_floats) text_floats ''2%0''
      = Inl (Exc ValueError ''Invalid expression: integer modulo by zero'')"
    by (simp add: safe_eval_def py_parse_modulo int_binop_def reraise_def caught_by_safe_eval_def)
  from a b c show ?thesis
    using calculate_safe [of text_floats "''abs(1)''" "py_parse text_floats"]
      calculate_safe [of text_floats "''2%0''" "py_parse text_floats"]
    by simp
qed

section \<open>Theorems: workflow\<close>

lemma run_from_generation: "run_from ev generation s = ([generation], generation_node ev s)"
  by (subst run_from.simps) simp

lemma run_from_error: "run_from ev error_state s = ([error_state], error_node s)"
  by (subst run_from.simps) simp

lemma run_from_tool_execution:
  "run_from ev tool_execution s
     = ([tool_execution, generation], generation_node ev (tool_execution_node ev s))"
  by (subst run_from.simps) (simp add: run_from_generation)

lemma run_from_tool_analysis:
  "run_from ev tool_analysis s =
     (if tool_needed (tool_analysis_node s) = Some True
      then ([tool_analysis, tool_execution, generation],
            generation_node ev (tool_execution_node ev (tool_analysis_node s)))
      else ([tool_analysis, generation], generation_node ev (tool_analysis_node s)))"
  by (subst run_from.simps)
    (simp add: run_from_generation run_from_tool_execution should_use_tool_def)

lemma run_from_reranking:
  "run_from ev reranking s =
     (reranking # fst (run_from ev tool_analysis (reranking_node ev s)),
      snd (run_from ev tool_analysis (reranking_node ev s)))"
  by (subst run_from.simps) (simp add: split_beta Let_def)

lemma run_from_retrieval:
  "run_from ev retrieval s =
     (if truthy (error (retrieval_node ev s))
      then ([retrieval, error_state], error_node (retrieval_node ev s))
      else (retrieval # fst (run_from ev reranking (retrieval_node ev s)),
            snd (run_from ev reranking (retrieval_node ev s))))"
  by (subst run_from.simps) (simp add: run_from_error check_error_def split_beta Let_def)

lemma query_append_step: "query (append_step n s) = query s"
  by (simp add: append_step_def)

lemma query_retrieval_node: "query (retrieval_node ev s) = query s"
  by (simp add: retrieval_node_def append_step_def split: sum.splits)

lemma query_reranking_node: "query (reranking_node ev s) = query s"
  by (simp add: reranking_node_def append_step_def split: option.splits sum.splits prod.splits)

lemma query_tool_analysis_node: "query (tool_analysis_node s) = query s"
  by (simp add: tool_analysis_node_def append_step_def Let_def)

lemma query_tool_execution_node: "query (tool_execution_node ev s) = query s"
  by (simp add: tool_execution_node_def append_step_def Let_def split: sum.splits)

lemmas query_node =
  query_retrieval_node query_reranking_node query_tool_analysis_node query_tool_execution_node

lemma tool_needed_tool_analysis:
  "tool_needed (tool_analysis_node s) =
     Some (\<exists>k \<in> set (concat (map snd tool_keywords)). contains k (lower (query s)))"
  by (simp add: tool_analysis_node_def append_step_def Let_def tool_keywords_def)

lemma error_retrieval_node:
  "error s = None \<Longrightarrow>
   truthy (error (retrieval_node ev s)) = (\<exists>e. hybrid_search ev (query s) (user_id s) 10 = Inl e)"
  by (auto simp: retrieval_node_def truthy_def append_step_def split: sum.splits)

lemma answer_error_node: "\<exists>a. answer (error_node s) = Some a \<and> a \<noteq> []"
  by (simp add: error_node_def append_step_def)

lemma answer_generation_node:
  "\<exists>a. answer (generation_node ev s) = Some a
     \<and> (a = [] \<longrightarrow> (\<exists>docs. docs \<noteq> [] \<and> generate_with_context ev (query s) docs = Inr []))"
  by (auto simp: generation_node_def append_step_def Let_def no_context_answer_def truthy_def
      split: option.splits sum.splits)

lemma run_graph_answer:
  "\<exists>a. answer (snd (run_graph ev q uid tid)) = Some a
     \<and> (a = [] \<longrightarrow> (\<exists>docs. docs \<noteq> [] \<and> generate_with_context ev q docs = Inr []))"
proof -
  define s0 where "s0 = create_initial_state q uid tid"
  define s1 where "s1 = retrieval_node ev s0"
  define s3 where "s3 = tool_analysis_node (reranking_node ev s1)"
  have q0: "query s0 = q" by (simp add: s0_def create_initial_state_def)
  have q3: "query s3 = q" "query (tool_execution_node ev s3) = q"
    by (simp_all add: s3_def s1_def query_node q0)
  show ?thesis
  proof (cases "truthy (error s1)")
    case True
    then have "snd (run_graph ev q uid tid) = error_node s1"
      by (simp add: run_graph_def run_from_retrieval s1_def s0_def)
    then show ?thesis using answer_error_node [of s1] by auto
  next
    case False
    show ?thesis
    proof (cases "tool_needed s3 = Some True")
      case True
      with False have "snd (run_graph ev q uid tid) = generation_node ev (tool_execution_node ev s3)"
        by (simp add: run_graph_def run_from_retrieval run_from_reranking run_from_tool_analysis
            s3_def s1_def s0_def)
      then show ?thesis
        using answer_generation_node [of ev "tool_execution_node ev s3"] q3 by simp
    next
      case no_tool: False
      with False have "snd (run_graph ev q uid tid) = generation_node ev s3"
        by (simp add: run_graph_def run_from_retrieval run_from_reranking run_from_tool_analysis
            s3_def s1_def s0_def)
      then show ?thesis
        using answer_generation_node [of ev s3] q3 by simp
    qed
  qed
qed

lemma run_graph_retrieval_error:
  assumes "hybrid_search ev q uid 10 = Inl e"
  shows "fst (run_graph ev q uid tid) = [retrieval, error_state]"
proof -
  define s0 where "s0 = create_initial_state q uid tid"
  have "error s0 = None" "query s0 = q" "user_id s0 = uid"
    by (simp_all add: s0_def create_initial_state_def)
  with assms have "truthy (error (retrieval_node ev s0))"
    using error_retrieval_node [of s0 ev] by auto
  then show ?thesis by (simp add: run_graph_def run_from_retrieval s0_def)
qed

lemma run_graph_no_trigger:
  assumes "\<forall>k \<in> set (concat (map snd tool_keywords)). \<not> contains k (lower q)"
  shows "tool_execution \<notin> set (fst (run_graph ev q uid tid))"
proof -
  define s0 where "s0 = create_initial_state q uid tid"
  define s2 where "s2 = reranking_node ev (retrieval_node ev s0)"
  have "query s2 = q" by (simp add: s2_def s0_def query_node create_initial_state_def)
  with assms have "tool_needed (tool_analysis_node s2) = Some False"
    by (simp add: tool_needed_tool_analysis)
  then show ?thesis
    by (simp add: run_graph_def run_from_retrieval run_from_reranking run_from_tool_analysis
        s2_def s0_def)
qed

lemma lower_what: "lower ''What is it'' = ''what is it''"
  by code_simp

lemma no_trigger_what:
  "\<forall>k \<in> set (concat (map snd tool_keywords)). \<not> contains k (lower ''What is it'')"
  unfolding lower_what by (simp add: tool_keywords_def)

text \<open>
  C3, as stated, fails in its last part: the answer of the language model is stored as it
  comes. With one document retrieved, no tool result and a model that replies with the
  empty text, the run ends in \<open>generation\<close> with the empty answer.
\<close>

theorem workflow_empty_answer:
  "answer (snd (run_graph (toy_env (Inr [mk_doc ''a'' None]) (Inr [])) ''What is it'' 1 None))
     = Some []"
proof -
  define ev where "ev = toy_env (Inr [mk_doc ''a'' None]) (Inr [])"
  define s0 where "s0 = create_initial_state ''What is it'' 1 None"
  define s1 where "s1 = retrieval_node ev s0"
  define s2 where "s2 = reranking_node ev s1"
  define s3 where "s3 = tool_analysis_node s2"
  have e1: "error s1 = None" "hybrid_results s1 = Some [mk_doc ''a'' None]" "tool_result s1 = None"
    by (simp_all add: s1_def s0_def ev_def retrieval_node_def toy_env_def create_initial_state_def
        append_step_def)
  have e2: "context_documents s2 = Some [mk_doc ''a'' None]" "tool_result s2 = None"
    using e1 by (simp_all add: s2_def reranking_node_def rerank_def ev_def toy_env_def
        py_take_def append_step_def)
  have q3: "query s3 = ''What is it''"
    by (simp add: s3_def s2_def s1_def s0_def query_node create_initial_state_def)
  have e3: "context_documents s3 = Some [mk_doc ''a'' None]" "tool_result s3 = None"
    using e2 by (simp_all add: s3_def tool_analysis_node_def append_step_def Let_def)
  have t3: "tool_needed s3 = Some False"
    using no_trigger_what
    by (simp add: s3_def tool_needed_tool_analysis s2_def s1_def s0_def query_node
        create_initial_state_def)
  have "snd (run_graph ev ''What is it'' 1 None) = generation_node ev s3"
    using e1 t3
    by (simp add: run_graph_def run_from_retrieval run_from_reranking run_from_tool_analysis
        truthy_def s3_def s2_def s1_def s0_def)
  moreover have "answer (generation_node ev s3) = Some []"
    using e3 by (simp add: generation_node_def truthy_def ev_def toy_env_def append_step_def)
  ultimately show ?thesis by (simp add: ev_def)
qed

text \<open>
  C3, amended: if the retrieval stage fails (the hybrid search raises, which sets
  \<open>error\<close>), the run is \<open>retrieval\<close>, \<open>error\<close> and never reaches \<open>reranking\<close>; if the
  lower-cased query contains none of the trigger phrases, the run never reaches
  \<open>tool_execution\<close>; every run ends, and ends with \<open>answer\<close> set to a string, which is
  empty only when the run ends in \<open>generation\<close> and the language model replied to the
  query with the empty text.
\<close>

theorem workflow_routing:
  "((\<exists>e. hybrid_search ev q uid 10 = Inl e) \<longrightarrow>
      fst (run_graph ev q uid tid) = [retrieval, error_state]
      \<and> reranking \<notin> set (fst (run_graph ev q uid tid)))
   \<and> ((\<forall>k \<in> set (concat (map snd tool_keywords)). \<not> contains k (lower q)) \<longrightarrow>
        tool_execution \<notin> set (fst (run_graph ev q uid tid)))
   \<and> (\<exists>a. answer (snd (run_graph ev q uid tid)) = Some a
        \<and> (a = [] \<longrightarrow> (\<exists>docs. docs \<noteq> [] \<and> generate_with_context ev q docs = Inr [])))"
proof (intro conjI impI)
  assume "\<exists>e. hybrid_search ev q uid 10 = Inl e"
  then obtain e where "hybrid_search ev q uid 10 = Inl e" ..
  from run_graph_retrieval_error [OF this]
  show "fst (run_graph ev q uid tid) = [retrieval, error_state]" .
  then show "reranking \<notin> set (fst (run_graph ev q uid tid))" by simp
next
  assume "\<forall>k \<in> set (concat (map snd tool_keywords)). \<not> contains k (lower q)"
  then show "tool_execution \<notin> set (fst (run_graph ev q uid tid))"
    by (rule run_graph_no_trigger)
next
  show "\<exists>a. answer (snd (run_graph ev q uid tid)) = Some a
        \<and> (a = [] \<longrightarrow> (\<exists>docs. docs \<noteq> [] \<and> generate_with_context ev q docs = Inr []))"
    by (rule run_graph_answer)
qed

theorem workflow_routing_witness:
  "fst (run_graph (toy_env (Inl (Exc ValueError ''down'')) (Inr ''fine'')) ''What is it'' 1 None)
     = [retrieval, error_state]
   \<and> tool_execution \<notin> set (fst (run_graph (toy_env (Inr [mk_doc ''a'' None]) (Inr ''fine''))
        ''What is it'' 1 None))"
proof -
  have a: "\<exists>e. hybrid_search (toy_env (Inl (Exc ValueError ''down'')) (Inr ''fine''))
      ''What is it'' 1 10 = Inl e"
    by (simp add: toy_env_def)
  from a no_trigger_what show ?thesis
    using workflow_routing [of "toy_env (Inl (Exc ValueError ''down'')) (Inr ''fine'')"
        "''What is it''" 1 None]
      workflow_routing [of "toy_env (Inr [mk_doc ''a'' None]) (Inr ''fine'')" "''What is it''" 1 None]
    by blast
qed

section \<open>Theorems: tool execution\<close>

lemma execute_calculate:
  assumes "tools ev = default_registry parse fl now"
    and "calculate parse fl e = Inr r"
  shows "execute_tool (tools ev) ''calculate'' (Some [(''expression'', e)]) = Inr r"
  using assms(2)
  by (simp add: assms(1) execute_tool_def get_tool_def default_registry_def calculate_tool_def)

text \<open>The runs of digits that \<open>findall_digits\<close> returns.\<close>

lemma findall_digits_run:
  "\<forall>c \<in> set ds. is_digit c \<Longrightarrow> findall_digits cur (ds @ rest) = findall_digits (cur @ ds) rest"
  by (induction ds arbitrary: cur) simp_all

lemma findall_digits_skip:
  "\<forall>c \<in> set pre. \<not> is_digit c \<Longrightarrow> findall_digits [] (pre @ rest) = findall_digits [] rest"
  by (induction pre) simp_all

lemma findall_digits_close:
  "ds \<noteq> [] \<Longrightarrow> rest = [] \<or> \<not> is_digit (hd rest) \<Longrightarrow>
   findall_digits ds rest = ds # findall_digits [] rest"
  by (cases rest) auto

lemma findall_digits_none:
  "\<forall>c \<in> set pre. \<not> is_digit c \<Longrightarrow> findall_digits [] pre = []"
  using findall_digits_skip [of pre "[]"] by simp

lemma findall_digits_first:
  assumes "\<forall>c \<in> set pre. \<not> is_digit c" and "ds \<noteq> []" and "\<forall>c \<in> set ds. is_digit c"
    and "rest = [] \<or> \<not> is_digit (hd rest)"
  shows "findall_digits [] (pre @ ds @ rest) = ds # findall_digits [] rest"
  using assms by (simp add: findall_digits_skip findall_digits_run findall_digits_close)

lemma findall_digits_two:
  assumes "\<forall>c \<in> set pre. \<not> is_digit c" and "d1 \<noteq> []" and "\<forall>c \<in> set d1. is_digit c"
    and "mid \<noteq> []" and "\<forall>c \<in> set mid. \<not> is_digit c"
    and "d2 \<noteq> []" and "\<forall>c \<in> set d2. is_digit c"
    and "rest = [] \<or> \<not> is_digit (hd rest)"
  shows "findall_digits [] (pre @ d1 @ mid @ d2 @ rest) = d1 # d2 # findall_digits [] rest"
proof -
  have "mid @ d2 @ rest = [] \<or> \<not> is_digit (hd (mid @ d2 @ rest))"
    using assms(4,5) by (cases mid) auto
  then have "findall_digits [] (pre @ d1 @ mid @ d2 @ rest)
      = d1 # findall_digits [] (mid @ d2 @ rest)"
    using findall_digits_first [OF assms(1-3)] by blast
  also have "findall_digits [] (mid @ d2 @ rest) = d2 # findall_digits [] rest"
    by (rule findall_digits_first [OF assms(5-8)])
  finally show ?thesis .
qed

lemma findall_digits_at_most_one:
  assumes "\<forall>c \<in> set pre. \<not> is_digit c" and "\<forall>c \<in> set d1. is_digit c"
    and "\<forall>c \<in> set rest. \<not> is_digit c"
  shows "findall_digits [] (pre @ d1 @ rest) = (if d1 = [] then [] else [d1])"
proof (cases "d1 = []")
  case True
  then show ?thesis
    using assms findall_digits_none [of "pre @ rest"] by auto
next
  case False
  have "rest = [] \<or> \<not> is_digit (hd rest)" using assms(3) by (cases rest) auto
  from findall_digits_first [OF assms(1) False assms(2) this] findall_digits_none [OF assms(3)]
  show ?thesis using False by simp
qed

lemma findall_digits_one:
  assumes "\<forall>c \<in> set pre. \<not> is_digit c" and "\<forall>c \<in> set d1. is_digit c"
    and "\<forall>c \<in> set rest. \<not> is_digit c"
  shows "length (findall_digits [] (pre @ d1 @ rest)) < 2"
  using findall_digits_at_most_one [OF assms] by simp

lemma digit_allowed: "is_digit c \<Longrightarrow> c \<in> allowed_chars"
proof -
  assume "is_digit c"
  then have "48 \<le> (of_char c :: nat) \<and> (of_char c :: nat) \<le> 57"
    by (simp add: is_digit_def)
  then have "(of_char c :: nat) = 48 \<or> (of_char c :: nat) = 49 \<or> (of_char c :: nat) = 50
      \<or> (of_char c :: nat) = 51 \<or> (of_char c :: nat) = 52 \<or> (of_char c :: nat) = 53
      \<or> (of_char c :: nat) = 54 \<or> (of_char c :: nat) = 55 \<or> (of_char c :: nat) = 56
      \<or> (of_char c :: nat) = 57"
    by arith
  then have "(of_char c :: nat) \<in> of_char ` set ''0123456789''" by auto
  then obtain d where d: "d \<in> set ''0123456789''" and "(of_char c :: nat) = of_char d"
    by blast
  then have "c = d" by (simp only: of_char_eq_iff)
  with d show ?thesis by (auto simp: allowed_chars_def)
qed

lemma calculate_sum_tree:
  assumes "\<forall>c \<in> set d1. is_digit c" and "\<forall>c \<in> set d2. is_digit c"
    and "parse (d1 @ ''+'' @ d2) = Inr (BinOp (Constant (CInt n1)) Add (Constant (CInt n2)))"
    and "length (str_nat (nat \<bar>n1 + n2\<bar>)) \<le> 4300"
  shows "calculate parse fl (d1 @ ''+'' @ d2) = Inr (str_int (n1 + n2))"
proof -
  have "CHR ''+'' \<in> allowed_chars" by (simp add: allowed_chars_def)
  then have "\<forall>c \<in> set (d1 @ ''+'' @ d2). c \<in> allowed_chars"
    using assms(1,2) by (auto simp: digit_allowed)
  then show ?thesis
    using assms(3,4)
    by (simp add: calculate_def safe_eval_def int_binop_def py_str_def)
qed

lemma tool_execution_calculates:
  assumes "\<not> contains ''date'' (lower (query s))" and "\<not> contains ''today'' (lower (query s))"
    and "contains ''calculate'' (lower (query s)) \<or> contains ''compute'' (lower (query s))"
    and "tools ev = default_registry parse fl now"
    and "findall_digits [] (lower (query s)) = d1 # d2 # others"
    and "calculate parse fl (d1 @ ''+'' @ d2) = Inr r"
  shows "tool_result (tool_execution_node ev s) = Some (''Calculation result: '' @ r)"
proof -
  have "tool_execution_node ev s
      = append_step ''tool_execution'' (s\<lparr>tool_result := Some (''Calculation result: '' @ r)\<rparr>)"
    unfolding tool_execution_node_def Let_def
    using assms(1-3,5) execute_calculate [OF assms(4,6)] by simp
  then show ?thesis by (simp add: append_step_def)
qed

lemma tool_execution_skips:
  assumes "\<not> contains ''date'' (lower (query s))" and "\<not> contains ''today'' (lower (query s))"
    and "contains ''calculate'' (lower (query s)) \<or> contains ''compute'' (lower (query s))"
    and "length (findall_digits [] (lower (query s))) < 2"
  shows "tool_execution_node ev s = append_step ''tool_execution'' s"
  unfolding tool_execution_node_def Let_def
  using assms by simp

text \<open>
  C10: in \<open>tool_execution_node\<close>, with the default tools, for a query whose lower-cased
  text contains \<open>calculate\<close> or \<open>compute\<close> and neither \<open>date\<close> nor \<open>today\<close>. The
  integers of the query are its maximal runs of digits, read from the left: when the text
  is \<open>pre @ d1 @ mid @ d2 @ rest\<close> with no digit in \<open>pre\<close> and \<open>mid\<close>, the runs \<open>d1\<close> and
  \<open>d2\<close> of digits not empty, \<open>mid\<close> not empty and no digit at the head of \<open>rest\<close>, the
  expression handed to \<open>calculate\<close> is \<open>d1+d2\<close>, whatever operation the words name, and
  its result is stored after \<open>Calculation result: \<close>; where the parser reads that
  expression as the sum of the two integers (and the sum has at most 4300 digits), the
  stored result is the decimal numeral of the sum of the numbers \<open>d1\<close> and \<open>d2\<close>. When
  the text holds at most one run of digits, the node only records its step and
  \<open>tool_result\<close> is left as it was. The same is stated through \<open>findall_digits\<close>, the
  list of all the runs.
\<close>

theorem tool_execution_adds_first_two:
  assumes "\<not> contains ''date'' (lower (query s))" and "\<not> contains ''today'' (lower (query s))"
    and "contains ''calculate'' (lower (query s)) \<or> contains ''compute'' (lower (query s))"
    and "tools ev = default_registry parse fl now"
  shows "(\<forall>pre d1 mid d2 rest.
            lower (query s) = pre @ d1 @ mid @ d2 @ rest
            \<and> (\<forall>c \<in> set pre. \<not> is_digit c) \<and> d1 \<noteq> [] \<and> (\<forall>c \<in> set d1. is_digit c)
            \<and> mid \<noteq> [] \<and> (\<forall>c \<in> set mid. \<not> is_digit c)
            \<and> d2 \<noteq> [] \<and> (\<forall>c \<in> set d2. is_digit c)
            \<and> (rest = [] \<or> \<not> is_digit (hd rest)) \<longrightarrow>
              take 2 (findall_digits [] (lower (query s))) = [d1, d2]
              \<and> (\<exists>r. calculate parse fl (d1 @ ''+'' @ d2) = Inr r
                   \<and> tool_result (tool_execution_node ev s) = Some (''Calculation result: '' @ r))
              \<and> (parse (d1 @ ''+'' @ d2)
                      = Inr (BinOp (Constant (CInt (int_of_digits d1))) Add
                               (Constant (CInt (int_of_digits d2))))
                    \<and> length (str_nat (nat \<bar>int_of_digits d1 + int_of_digits d2\<bar>)) \<le> 4300 \<longrightarrow>
                  tool_result (tool_execution_node ev s)
                    = Some (''Calculation result: '' @ str_int (int_of_digits d1 + int_of_digits d2))))
       \<and> (\<forall>pre d1 rest.
            lower (query s) = pre @ d1 @ rest
            \<and> (\<forall>c \<in> set pre. \<not> is_digit c) \<and> (\<forall>c \<in> set d1. is_digit c)
            \<and> (\<forall>c \<in> set rest. \<not> is_digit c) \<longrightarrow>
              findall_digits [] (lower (query s)) = (if d1 = [] then [] else [d1])
              \<and> tool_execution_node ev s = append_step ''tool_execution'' s
              \<and> tool_result (tool_execution_node ev s) = tool_result s)
       \<and> (2 \<le> length (findall_digits [] (lower (query s))) \<longrightarrow>
           (\<exists>r. calculate parse fl
                  (findall_digits [] (lower (query s)) ! 0 @ ''+''
                     @ findall_digits [] (lower (query s)) ! 1) = Inr r
              \<and> tool_result (tool_execution_node ev s) = Some (''Calculation result: '' @ r)))
       \<and> (length (findall_digits [] (lower (query s))) < 2 \<longrightarrow>
            tool_execution_node ev s = append_step ''tool_execution'' s
            \<and> tool_result (tool_execution_node ev s) = tool_result s)"
proof (intro conjI allI impI)
  fix pre d1 mid d2 rest
  assume h: "lower (query s) = pre @ d1 @ mid @ d2 @ rest
            \<and> (\<forall>c \<in> set pre. \<not> is_digit c) \<and> d1 \<noteq> [] \<and> (\<forall>c \<in> set d1. is_digit c)
            \<and> mid \<noteq> [] \<and> (\<forall>c \<in> set mid. \<not> is_digit c)
            \<and> d2 \<noteq> [] \<and> (\<forall>c \<in> set d2. is_digit c)
            \<and> (rest = [] \<or> \<not> is_digit (hd rest))"
  then have nums: "findall_digits [] (lower (query s)) = d1 # d2 # findall_digits [] rest"
    using findall_digits_two [of pre d1 mid d2 rest] by simp
  then show "take 2 (findall_digits [] (lower (query s))) = [d1, d2]" by simp
  obtain r where r: "calculate parse fl (d1 @ ''+'' @ d2) = Inr r"
    using calculate_returns by blast
  from tool_execution_calculates [OF assms nums r] r
  show "\<exists>r. calculate parse fl (d1 @ ''+'' @ d2) = Inr r
      \<and> tool_result (tool_execution_node ev s) = Some (''Calculation result: '' @ r)"
    by blast
  assume p: "parse (d1 @ ''+'' @ d2)
                      = Inr (BinOp (Constant (CInt (int_of_digits d1))) Add
                               (Constant (CInt (int_of_digits d2))))
      \<and> length (str_nat (nat \<bar>int_of_digits d1 + int_of_digits d2\<bar>)) \<le> 4300"
  have "calculate parse fl (d1 @ ''+'' @ d2)
      = Inr (str_int (int_of_digits d1 + int_of_digits d2))"
    using calculate_sum_tree [of d1 d2 parse] h p by blast
  from tool_execution_calculates [OF assms nums this]
  show "tool_result (tool_execution_node ev s)
      = Some (''Calculation result: '' @ str_int (int_of_digits d1 + int_of_digits d2))" .
next
  fix pre d1 rest
  assume h: "lower (query s) = pre @ d1 @ rest
            \<and> (\<forall>c \<in> set pre. \<not> is_digit c) \<and> (\<forall>c \<in> set d1. is_digit c)
            \<and> (\<forall>c \<in> set rest. \<not> is_digit c)"
  then have few: "length (findall_digits [] (lower (query s))) < 2"
    using findall_digits_one [of pre d1 rest] by simp
  show "findall_digits [] (lower (query s)) = (if d1 = [] then [] else [d1])"
    using h findall_digits_at_most_one [of pre d1 rest] by simp
  show a: "tool_execution_node ev s = append_step ''tool_execution'' s"
    by (rule tool_execution_skips [OF assms(1-3) few])
  show "tool_result (tool_execution_node ev s) = tool_result s"
    unfolding a by (simp add: append_step_def)
next
  let ?nums = "findall_digits [] (lower (query s))"
  assume two: "2 \<le> length ?nums"
  then obtain a b others where nums: "?nums = a # b # others"
    by (cases ?nums; cases "tl ?nums") auto
  obtain r where r: "calculate parse fl (a @ ''+'' @ b) = Inr r"
    using calculate_returns by blast
  from tool_execution_calculates [OF assms nums r] r
  show "\<exists>r. calculate parse fl (?nums ! 0 @ ''+'' @ ?nums ! 1) = Inr r
      \<and> tool_result (tool_execution_node ev s) = Some (''Calculation result: '' @ r)"
    by (simp add: nums)
next
  assume few: "length (findall_digits [] (lower (query s))) < 2"
  show a: "tool_execution_node ev s = append_step ''tool_execution'' s"
    by (rule tool_execution_skips [OF assms(1-3) few])
  show "tool_result (tool_execution_node ev s) = tool_result s"
    unfolding a by (simp add: append_step_def)
qed

lemma lower_compute_1: "lower ''Compute 12 times 5'' = ''compute 12 times 5''"
  by code_simp

lemma lower_compute_2: "lower ''Compute 12 squared'' = ''compute 12 squared''"
  by code_simp

lemma py_parse_twelve_plus_five:
  "py_parse fl ''12+5'' = Inr (BinOp (Constant (CInt 12)) Add (Constant (CInt 5)))"
  by (simp add: py_parse_def is_digit_def int_of_digits_def cons_token_def push_binop_def)

theorem tool_execution_adds_first_two_witness:
  "tool_result (tool_execution_node (toy_env (Inr []) (Inr ''fine''))
      (create_initial_state ''Compute 12 times 5'' 1 None)) = Some ''Calculation result: 17''
   \<and> tool_result (tool_execution_node (toy_env (Inr []) (Inr ''fine''))
      (create_initial_state ''Compute 12 squared'' 1 None)) = None"
proof -
  define ev where "ev = toy_env (Inr []) (Inr ''fine'')"
  define s where "s = create_initial_state ''Compute 12 times 5'' 1 None"
  define t where "t = create_initial_state ''Compute 12 squared'' 1 None"
  have l1: "lower (query s) = ''compute 12 times 5''"
    by (simp add: s_def create_initial_state_def lower_compute_1)
  have l2: "lower (query t) = ''compute 12 squared''"
    by (simp add: t_def create_initial_state_def lower_compute_2)
  have h1: "\<not> contains ''date'' (lower (query s))" "\<not> contains ''today'' (lower (query s))"
    "contains ''calculate'' (lower (query s)) \<or> contains ''compute'' (lower (query s))"
    unfolding l1 by simp_all
  have h2: "\<not> contains ''date'' (lower (query t))" "\<not> contains ''today'' (lower (query t))"
    "contains ''calculate'' (lower (query t)) \<or> contains ''compute'' (lower (query t))"
    unfolding l2 by simp_all
  have tl: "tools ev = default_registry (py_parse text_floats) text_floats
       \<lparr> year = 2024, month = 5, day = 7, hour = 9, minute = 3, second = 0 \<rparr>"
    by (simp add: ev_def toy_env_def)
  have t0: "tool_result t = None" by (simp add: t_def create_initial_state_def)
  have n: "int_of_digits ''12'' = 12" "int_of_digits ''5'' = 5"
    by (simp_all add: int_of_digits_def)
  have st: "str_nat 17 = ''17''" "str_int 17 = ''17''"
    by (simp_all add: str_int_def str_nat.simps digit_char_def)
  have "tool_result (tool_execution_node ev s)
      = Some (''Calculation result: '' @ str_int (int_of_digits ''12'' + int_of_digits ''5''))"
    using tool_execution_adds_first_two [OF h1 tl, THEN conjunct1, rule_format,
        of "''compute ''" "''12''" "'' times ''" "''5''" "[]", THEN conjunct2, THEN conjunct2,
        rule_format]
    by (simp add: l1 is_digit_def n st py_parse_twelve_plus_five)
  moreover have "tool_result (tool_execution_node ev t) = tool_result t"
    using tool_execution_adds_first_two [OF h2 tl, THEN conjunct2, THEN conjunct1, rule_format,
        of "''compute ''" "''12''" "'' squared''", THEN conjunct2, THEN conjunct2]
    by (simp add: l2 is_digit_def)
  ultimately have "tool_result (tool_execution_node ev s) = Some ''Calculation result: 17''
      \<and> tool_result (tool_execution_node ev t) = None"
    by (simp add: n st t0)
  then show ?thesis by (simp add: ev_def s_def t_def)
qed

section \<open>Theorems: text chunker\<close>

lemma py_index_in_range: "0 \<le> i \<Longrightarrow> i \<le> int n \<Longrightarrow> py_index i n = nat i"
  by (simp add: py_index_def)

lemma rfind_bounds:
  assumes "rfind body sub start stop \<noteq> - 1"
  shows "int (py_index start (length body)) \<le> rfind body sub start stop
     \<and> rfind body sub start stop + int (length sub) \<le> int (py_index stop (length body))"
proof -
  let ?s = "py_index start (length body)" and ?e = "py_index stop (length body)"
  let ?m = "length sub"
  let ?cands = "filter (\<lambda>i. take ?m (drop i body) = sub) (rev [?s ..< Suc ?e - ?m])"
  from assms obtain i rest where c: "?cands = i # rest"
    by (cases ?cands) (auto simp: rfind_def Let_def)
  then have r: "rfind body sub start stop = int i"
    by (simp add: rfind_def Let_def)
  have "i \<in> set ?cands" using c by simp
  then have "?s \<le> i" "i < Suc ?e - ?m" by auto
  then show ?thesis unfolding r by linarith
qed

lemma find_boundary_bounds:
  assumes "find_boundary body start stop bs = Some e"
    and "0 \<le> start" "start \<le> int (length body)" "0 \<le> stop" "stop \<le> int (length body)"
    and "\<forall>b \<in> set bs. b \<noteq> []"
  shows "start < e \<and> e \<le> stop"
  using assms
proof (induction bs)
  case Nil
  then show ?case by simp
next
  case (Cons b bs)
  show ?case
  proof (cases "rfind body b start stop = - 1")
    case True
    with Cons show ?thesis by simp
  next
    case False
    then have e: "e = rfind body b start stop + int (length b)"
      using Cons.prems(1) by (simp add: Let_def)
    have "b \<noteq> []" using Cons.prems(6) by simp
    then have "0 < int (length b)" by simp
    moreover have "int (py_index start (length body)) = start"
      "int (py_index stop (length body)) = stop"
      using Cons.prems(2-5) by (simp_all add: py_index_in_range)
    ultimately show ?thesis
      unfolding e using rfind_bounds [OF False] by linarith
  qed
qed

lemma boundaries_nonempty: "\<forall>b \<in> set boundaries. b \<noteq> []"
  by (simp add: boundaries_def)

lemma chunk_end_bounds:
  assumes "1 \<le> csize" "0 \<le> start" "start < int (length body)"
  shows "start < chunk_end csize body start \<and> chunk_end csize body start \<le> start + csize"
proof (cases "start + csize < int (length body)")
  case False
  with assms show ?thesis by (simp add: chunk_end_def Let_def)
next
  case True
  show ?thesis
  proof (cases "find_boundary body start (start + csize) boundaries")
    case (Some e)
    from find_boundary_bounds [OF Some _ _ _ _ boundaries_nonempty] assms True
    have "start < e \<and> e \<le> start + csize" by simp
    with True Some show ?thesis by (simp add: chunk_end_def Let_def)
  next
    case None
    show ?thesis
    proof (cases "rfind body '' '' start (start + csize) = - 1")
      case t: True
      with True None assms show ?thesis by (simp add: chunk_end_def Let_def)
    next
      case f: False
      have "int (py_index start (length body)) = start"
        "int (py_index (start + csize) (length body)) = start + csize"
        using assms True by (simp_all add: py_index_in_range)
      with rfind_bounds [OF f]
      have "start \<le> rfind body '' '' start (start + csize)"
        "rfind body '' '' start (start + csize) + 1 \<le> start + csize"
        by simp_all
      with True None f show ?thesis by (simp add: chunk_end_def Let_def)
    qed
  qed
qed

lemma next_start_advances: "prev_start < next_start csize overlap prev_start stop"
  by (simp add: next_start_def Let_def max_def)

lemma next_start_forced:
  assumes "csize \<le> overlap" "stop \<le> prev_start + csize"
  shows "next_start csize overlap prev_start stop = prev_start + 1"
  using assms by (simp add: next_start_def Let_def max_def)

lemma chunk_loop_step:
  "start < int (length body) \<Longrightarrow>
     chunk_loop csize overlap body md start idx =
       \<lparr> chunk_content = strip (py_slice body start (chunk_end csize body start)),
         base_metadata = md, chunk_number = idx, start_char = start,
         end_char = chunk_end csize body start \<rparr>
       # chunk_loop csize overlap body md
           (next_start csize overlap start (chunk_end csize body start)) (Suc idx)"
  by (rule trans [OF chunk_loop.simps]) simp

lemma chunk_loop_done:
  "\<not> start < int (length body) \<Longrightarrow> chunk_loop csize overlap body md start idx = []"
  by (rule trans [OF chunk_loop.simps]) simp

lemma length_chunk_loop_forced:
  "1 \<le> csize \<Longrightarrow> csize \<le> overlap \<Longrightarrow> 0 \<le> start \<Longrightarrow>
     length (chunk_loop csize overlap body md start idx) = nat (int (length body) - start)"
proof (induction csize overlap body md start idx rule: chunk_loop.induct)
  case (1 csize overlap body md start idx)
  show ?case
  proof (cases "start < int (length body)")
    case False
    then show ?thesis by (simp add: chunk_loop_done)
  next
    case True
    from chunk_end_bounds [OF "1.prems"(1) "1.prems"(3) True]
    have "chunk_end csize body start \<le> start + csize" by simp
    then have ns: "next_start csize overlap start (chunk_end csize body start) = start + 1"
      using "1.prems"(2) by (rule next_start_forced [rotated])
    have "length (chunk_loop csize overlap body md (start + 1) (Suc idx))
        = nat (int (length body) - (start + 1))"
      using "1.IH" [OF True] "1.prems" unfolding ns by simp
    then show ?thesis
      using True by (simp add: chunk_loop_step [OF True] ns)
  qed
qed

lemma chunk_loop_chunks:
  "1 \<le> csize \<Longrightarrow> 0 \<le> start \<Longrightarrow> c \<in> set (chunk_loop csize overlap body md start idx) \<Longrightarrow>
     start \<le> start_char c \<and> start_char c < int (length body)
     \<and> start_char c < end_char c \<and> end_char c \<le> start_char c + csize
     \<and> end_char c = chunk_end csize body (start_char c)
     \<and> chunk_content c = strip (py_slice body (start_char c) (end_char c))"
proof (induction csize overlap body md start idx rule: chunk_loop.induct)
  case (1 csize overlap body md start idx)
  show ?case
  proof (cases "start < int (length body)")
    case False
    with "1.prems" show ?thesis by (simp add: chunk_loop_done)
  next
    case True
    let ?e = "chunk_end csize body start"
    let ?n = "next_start csize overlap start ?e"
    from "1.prems"(3) True
    consider "c = \<lparr> chunk_content = strip (py_slice body start ?e), base_metadata = md,
        chunk_number = idx, start_char = start, end_char = ?e \<rparr>"
      | "c \<in> set (chunk_loop csize overlap body md ?n (Suc idx))"
      by (auto simp: chunk_loop_step [OF True])
    then show ?thesis
    proof cases
      case 1
      with chunk_end_bounds [OF "1.prems"(1) "1.prems"(2) True] True show ?thesis by simp
    next
      case 2
      have adv: "start < ?n" by (rule next_start_advances)
      with "1.prems"(2) have "0 \<le> ?n" by simp
      from "1.IH" [OF True "1.prems"(1) this 2] adv show ?thesis by simp
    qed
  qed
qed

lemma chunk_loop_sorted:
  "sorted_wrt (<) (map start_char (chunk_loop csize overlap body md start idx))
   \<and> (\<forall>c \<in> set (chunk_loop csize overlap body md start idx). start \<le> start_char c)"
proof (induction csize overlap body md start idx rule: chunk_loop.induct)
  case (1 csize overlap body md start idx)
  show ?case
  proof (cases "start < int (length body)")
    case False
    then show ?thesis by (simp add: chunk_loop_done)
  next
    case True
    let ?n = "next_start csize overlap start (chunk_end csize body start)"
    have adv: "start < ?n" by (rule next_start_advances)
    from "1.IH" [OF True] adv show ?thesis
      by (simp add: chunk_loop_step [OF True]) fastforce
  qed
qed

lemma chunk_loop_numbers:
  "map chunk_number (chunk_loop csize overlap body md start idx)
     = [idx ..< idx + length (chunk_loop csize overlap body md start idx)]"
proof (induction csize overlap body md start idx rule: chunk_loop.induct)
  case (1 csize overlap body md start idx)
  show ?case
  proof (cases "start < int (length body)")
    case False
    then show ?thesis by (simp add: chunk_loop_done)
  next
    case True
    from "1.IH" [OF True] show ?thesis
      by (simp add: chunk_loop_step [OF True] upt_conv_Cons del: upt_Suc)
  qed
qed

lemma chunk_loop_first:
  "start < int (length body) \<Longrightarrow>
     chunk_loop csize overlap body md start idx \<noteq> []
     \<and> start_char (hd (chunk_loop csize overlap body md start idx)) = start"
  by (simp add: chunk_loop_step)

lemma strip_nonempty_text: "strip body \<noteq> [] \<Longrightarrow> body \<noteq> []"
  by (auto simp: strip_def)

text \<open>
  Every chunk is stripped of the white space at its ends, so the blank at which a window
  is cut belongs to no chunk. From \<open>abc def\<close> with windows of 5 characters and an
  overlap of 1 the chunks are \<open>abc\<close> and \<open>def\<close>.
\<close>

theorem chunk_text_loses_blank:
  "map chunk_content (chunk_text \<lparr> chunk_size = 5, chunk_overlap = 1 \<rparr> ''abc def'' [])
     = [''abc'', ''def'']
   \<and> concat_without_overlap 0 (chunk_text \<lparr> chunk_size = 5, chunk_overlap = 1 \<rparr> ''abc def'' [])
     \<noteq> ''abc def''"
  by code_simp

text \<open>
  The spans of the chunks. For \<open>0 \<le> overlap < chunk_size\<close>, empty or white-space-only
  text gives no chunk and no error; any other text gives at least one chunk, the first
  starting at 0; every chunk has \<open>0 \<le> start_char < end_char \<le> start_char + chunk_size\<close>,
  starts inside the text, and holds the slice of the text between its two bounds,
  stripped of the white space at both ends; the \<open>start_char\<close> values of consecutive
  chunks are strictly increasing and the chunk indices count from 0.
\<close>

theorem chunk_text_spans:
  assumes "0 \<le> chunk_overlap self" and "chunk_overlap self < chunk_size self"
  shows "(body = [] \<or> strip body = [] \<longrightarrow> chunk_text self body md = [])
     \<and> (strip body \<noteq> [] \<longrightarrow>
          chunk_text self body md \<noteq> [] \<and> start_char (hd (chunk_text self body md)) = 0)
     \<and> (\<forall>c \<in> set (chunk_text self body md).
          0 \<le> start_char c \<and> start_char c < int (length body)
          \<and> start_char c < end_char c \<and> end_char c \<le> start_char c + chunk_size self
          \<and> chunk_content c = strip (py_slice body (start_char c) (end_char c)))
     \<and> sorted_wrt (<) (map start_char (chunk_text self body md))
     \<and> map chunk_number (chunk_text self body md) = [0 ..< length (chunk_text self body md)]"
proof (intro conjI impI ballI)
  assume "body = [] \<or> strip body = []"
  then show "chunk_text self body md = []" by (auto simp: chunk_text_def)
next
  assume ne: "strip body \<noteq> []"
  then have "body \<noteq> []" by (rule strip_nonempty_text)
  then have "0 < int (length body)" by simp
  from chunk_loop_first [OF this] ne \<open>body \<noteq> []\<close>
  show "chunk_text self body md \<noteq> []" "start_char (hd (chunk_text self body md)) = 0"
    by (simp_all add: chunk_text_def)
next
  fix c assume c: "c \<in> set (chunk_text self body md)"
  then have "c \<in> set (chunk_loop (chunk_size self) (chunk_overlap self) body md 0 0)"
    by (auto simp: chunk_text_def split: if_splits)
  moreover have "1 \<le> chunk_size self" using assms by simp
  ultimately have p: "0 \<le> start_char c \<and> start_char c < int (length body)
     \<and> start_char c < end_char c \<and> end_char c \<le> start_char c + chunk_size self
     \<and> end_char c = chunk_end (chunk_size self) body (start_char c)
     \<and> chunk_content c = strip (py_slice body (start_char c) (end_char c))"
    using chunk_loop_chunks [of "chunk_size self" 0 c "chunk_overlap self" body md 0] by simp
  from p show "0 \<le> start_char c" by simp
  from p show "start_char c < int (length body)" by simp
  from p show "start_char c < end_char c" by simp
  from p show "end_char c \<le> start_char c + chunk_size self" by simp
  from p show "chunk_content c = strip (py_slice body (start_char c) (end_char c))" by simp
next
  show "sorted_wrt (<) (map start_char (chunk_text self body md))"
    using chunk_loop_sorted [of "chunk_size self" "chunk_overlap self" body md 0 0]
    by (simp add: chunk_text_def)
next
  show "map chunk_number (chunk_text self body md) = [0 ..< length (chunk_text self body md)]"
    using chunk_loop_numbers [of "chunk_size self" "chunk_overlap self" body md 0 0]
    by (simp add: chunk_text_def)
qed

theorem chunk_text_spans_witness:
  "map (\<lambda>c. (start_char c, end_char c))
      (chunk_text \<lparr> chunk_size = 5, chunk_overlap = 1 \<rparr> ''abc def'' []) = [(0, 4), (3, 8)]
   \<and> sorted_wrt (<) (map start_char (chunk_text \<lparr> chunk_size = 5, chunk_overlap = 1 \<rparr> ''abc def'' []))"
proof -
  have v: "map (\<lambda>c. (start_char c, end_char c))
      (chunk_text \<lparr> chunk_size = 5, chunk_overlap = 1 \<rparr> ''abc def'' []) = [(0, 4), (3, 8)]"
    by code_simp
  have "(0::int) \<le> chunk_overlap \<lparr> chunk_size = 5, chunk_overlap = 1 \<rparr>"
    "chunk_overlap \<lparr> chunk_size = 5, chunk_overlap = 1 \<rparr> < chunk_size \<lparr> chunk_size = 5, chunk_overlap = 1 \<rparr>"
    by simp_all
  from chunk_text_spans [OF this, of "''abc def''" "[]"] v show ?thesis by blast
qed

text \<open>
  C4: the chunks of a text, concatenated with the overlaps removed, are to give the text
  back. The loop does not keep to this. When the window that follows a cut at a sentence
  end is cut at that same place, \<open>end - overlap\<close> does not pass the previous start, and the
  forced step \<open>prev_start + max(1, chunk_size - overlap)\<close> is taken from the previous
  start, not from the end of the chunk just made: it jumps over text that no chunk holds.
  From \<open>Hello. World is big\<close> with windows of 10 characters and an overlap of 2 the
  chunks are \<open>Hello.\<close> at 0 to 7, \<open>.\<close> at 5 to 7 and \<open>is big\<close> at 13 to 23; the
  characters 7 to 12, the word \<open>World\<close>, are in no chunk, and the concatenation gives
  \<open>Hello.is big\<close>.
\<close>

theorem chunk_text_gap:
  "map (\<lambda>c. (chunk_content c, start_char c, end_char c))
      (chunk_text \<lparr> chunk_size = 10, chunk_overlap = 2 \<rparr> ''Hello. World is big'' [])
     = [(''Hello.'', 0, 7), (''.'', 5, 7), (''is big'', 13, 23)]
   \<and> concat_without_overlap 0
       (chunk_text \<lparr> chunk_size = 10, chunk_overlap = 2 \<rparr> ''Hello. World is big'' [])
     = ''Hello.is big''
   \<and> filter (\<lambda>c. contains ''World'' (chunk_content c))
       (chunk_text \<lparr> chunk_size = 10, chunk_overlap = 2 \<rparr> ''Hello. World is big'' []) = []"
  by code_simp


text \<open>
  C8, as stated, fails for a text of white space only: the guard at the head of
  \<open>chunk_text\<close> returns no chunk for it, where the bound asks for one.
\<close>

theorem chunk_text_blank_text:
  "chunk_text \<lparr> chunk_size = 1, chunk_overlap = 1 \<rparr> '' '' [] = []
   \<and> \<not> \<lceil>rat_of_nat (length '' '') / rat_of_int 1\<rceil> \<le> int (length (chunk_text \<lparr> chunk_size = 1, chunk_overlap = 1 \<rparr> '' '' []))"
  by (simp add: chunk_text_def strip_def is_space_def)

text \<open>
  C8, amended: \<open>chunk_text\<close> terminates on every input (the model is a total function
  whose loop has a decreasing measure, each next start lying beyond the previous one). For
  \<open>overlap \<ge> chunk_size\<close> and a text that is not empty or white space only, it produces
  at least \<open>ceil(len(text) / chunk_size)\<close> chunks: with \<open>chunk_size \<ge> 1\<close> every step is
  the forced step of one character, which gives exactly \<open>len(text)\<close> chunks, and for a
  \<open>chunk_size\<close> below 1 the bound is not positive.
\<close>

theorem chunk_text_forced_progress:
  assumes "chunk_size self \<le> chunk_overlap self" and "strip body \<noteq> []"
  shows "\<lceil>rat_of_nat (length body) / rat_of_int (chunk_size self)\<rceil>
           \<le> int (length (chunk_text self body md))
     \<and> (1 \<le> chunk_size self \<longrightarrow> length (chunk_text self body md) = length body)
     \<and> prev_start < next_start (chunk_size self) (chunk_overlap self) prev_start stop
     \<and> (stop - chunk_overlap self \<le> prev_start \<longrightarrow>
          next_start (chunk_size self) (chunk_overlap self) prev_start stop
            = prev_start + max 1 (chunk_size self - chunk_overlap self))"
proof -
  have forced: "stop - chunk_overlap self \<le> prev_start \<longrightarrow>
      next_start (chunk_size self) (chunk_overlap self) prev_start stop
        = prev_start + max 1 (chunk_size self - chunk_overlap self)"
    by (simp add: next_start_def)
  have ne: "body \<noteq> []" using assms(2) by (rule strip_nonempty_text)
  have len: "length (chunk_text self body md) = length body" if "1 \<le> chunk_size self"
    using length_chunk_loop_forced [OF that assms(1), of 0 body md 0] assms(2) ne
    by (simp add: chunk_text_def)
  have "\<lceil>rat_of_nat (length body) / rat_of_int (chunk_size self)\<rceil>
      \<le> int (length (chunk_text self body md))"
  proof (cases "1 \<le> chunk_size self")
    case True
    then have "rat_of_nat (length body) / rat_of_int (chunk_size self) \<le> rat_of_nat (length body)"
      by (simp add: divide_le_eq_1 pos_divide_le_eq mult_le_cancel_left1)
    then have "\<lceil>rat_of_nat (length body) / rat_of_int (chunk_size self)\<rceil> \<le> int (length body)"
      by (simp add: ceiling_le_iff)
    with len [OF True] show ?thesis by simp
  next
    case False
    then have "rat_of_int (chunk_size self) \<le> 0" by simp
    then have "rat_of_nat (length body) / rat_of_int (chunk_size self) \<le> 0"
      by (simp add: divide_nonneg_nonpos)
    then have "\<lceil>rat_of_nat (length body) / rat_of_int (chunk_size self)\<rceil> \<le> 0"
      by (simp add: ceiling_le_iff)
    moreover have "0 \<le> int (length (chunk_text self body md))" by simp
    ultimately show ?thesis by (rule order_trans)
  qed
  with len forced next_start_advances show ?thesis by blast
qed

theorem chunk_text_forced_progress_witness:
  "length (chunk_text \<lparr> chunk_size = 2, chunk_overlap = 5 \<rparr> ''a. bcd'' []) = 6
   \<and> \<lceil>rat_of_nat (length ''a. bcd'') / rat_of_int 2\<rceil>
       \<le> int (length (chunk_text \<lparr> chunk_size = 2, chunk_overlap = 5 \<rparr> ''a. bcd'' []))"
proof -
  have s: "strip ''a. bcd'' \<noteq> []" by (simp add: strip_def is_space_def)
  have "chunk_size \<lparr> chunk_size = 2, chunk_overlap = 5 \<rparr> \<le> chunk_overlap \<lparr> chunk_size = 2, chunk_overlap = 5 \<rparr>"
    by simp
  from chunk_text_forced_progress [OF this s, of "[]"] show ?thesis by simp
qed

section \<open>Theorems: reciprocal rank fusion\<close>

lemma map_of_map_key:
  "map_of (map (\<lambda>(key, e). (key, g key e)) xs) key = map_option (g key) (map_of xs key)"
  by (induction xs) auto

lemma keys_add_result:
  "map fst (add_result ar k src fused item) =
     (if chunk_key src (fst item) (snd item) \<in> set (map fst fused) then map fst fused
      else map fst fused @ [chunk_key src (fst item) (snd item)])"
  by (simp add: add_result_def Let_def split_beta comp_def)

lemma distinct_add_result:
  "distinct (map fst fused) \<Longrightarrow> distinct (map fst (add_result ar k src fused item))"
  by (simp add: keys_add_result)

lemma score_at_Nil: "score_at [] key = 0"
  by (simp add: score_at_def)

lemma score_at_add_result:
  "score_at (add_result ar k src fused item) key =
     (if chunk_key src (fst item) (snd item) = key
      then fadd ar (score_at fused key) (fdiv ar 1 (of_nat (k + fst item + 1)))
      else score_at fused key)"
proof -
  define cid where "cid = chunk_key src (fst item) (snd item)"
  define sc :: rat where "sc = fdiv ar 1 (of_nat (k + fst item + 1))"
  define fused1 where "fused1 = (if cid \<notin> fst ` set fused
      then fused @ [(cid, \<lparr> fused_result = snd item, fused_score = 0, fused_sources = [] \<rparr>)]
      else fused)"
  define upd :: "string \<Rightarrow> fused_entry \<Rightarrow> fused_entry" where "upd = (\<lambda>key e. if key = cid
      then e\<lparr>fused_score := fadd ar (fused_score e) sc,
             fused_sources := List.insert src (fused_sources e)\<rparr>
      else e)"
  have res: "add_result ar k src fused item = map (\<lambda>(key, e). (key, upd key e)) fused1"
    unfolding add_result_def Let_def cid_def sc_def fused1_def upd_def ..
  have look: "map_of (add_result ar k src fused item) key = map_option (upd key) (map_of fused1 key)"
    unfolding res by (rule map_of_map_key)
  have s1: "score_at fused1 key = score_at fused key"
  proof (cases "cid \<in> fst ` set fused")
    case True
    then show ?thesis by (simp add: fused1_def)
  next
    case False
    then have "map_of fused cid = None" by (simp add: map_of_eq_None_iff)
    with False show ?thesis
      by (auto simp: fused1_def score_at_def map_add_def split: option.splits)
  qed
  have s2: "score_at (add_result ar k src fused item) key
      = (if cid = key then fadd ar (score_at fused1 key) sc else score_at fused1 key)"
  proof (cases "map_of fused1 key")
    case None
    then have "key \<notin> fst ` set fused1" by (simp add: map_of_eq_None_iff)
    moreover have "cid \<in> fst ` set fused1" by (auto simp: fused1_def)
    ultimately have "cid \<noteq> key" by auto
    with None show ?thesis by (simp add: score_at_def look)
  next
    case (Some e)
    then show ?thesis by (auto simp: score_at_def look upd_def)
  qed
  show ?thesis unfolding s2 s1 by (simp add: cid_def sc_def)
qed

lemma score_at_foldl:
  "score_at (foldl (add_result ar k src) fused (enumerate n rs)) key =
     foldl (fadd ar) (score_at fused key) (key_terms ar k src n rs key)"
proof (induction rs arbitrary: fused n)
  case Nil
  then show ?case by (simp add: key_terms_def)
next
  case (Cons r rs)
  have "key_terms ar k src n (r # rs) key =
      (if chunk_key src n r = key then [fdiv ar 1 (of_nat (k + n + 1))] else [])
        @ key_terms ar k src (Suc n) rs key"
    by (simp add: key_terms_def)
  with Cons.IH [of "add_result ar k src fused (n, r)" "Suc n"] show ?case
    by (simp add: score_at_add_result)
qed

lemma distinct_foldl:
  "distinct (map fst fused) \<Longrightarrow>
     distinct (map fst (foldl (add_result ar k src) fused items))"
  by (induction items arbitrary: fused) (simp_all add: distinct_add_result)

lemma keys_foldl:
  "fst ` set (foldl (add_result ar k src) fused items) =
     fst ` set fused \<union> (\<lambda>item. chunk_key src (fst item) (snd item)) ` set items"
proof (induction items arbitrary: fused)
  case Nil
  then show ?case by simp
next
  case (Cons item items)
  have "set (map fst (add_result ar k src fused item))
      = insert (chunk_key src (fst item) (snd item)) (set (map fst fused))"
    by (auto simp: keys_add_result)
  then have "fst ` set (add_result ar k src fused item)
      = insert (chunk_key src (fst item) (snd item)) (fst ` set fused)"
    by simp
  with Cons.IH [of "add_result ar k src fused item"] show ?case by auto
qed

lemma distinct_fused_table: "distinct (map fst (fused_table ar self bm vec))"
  by (simp add: fused_table_def add_results_def distinct_foldl)

lemma keys_fused_table:
  "set (map fst (fused_table ar self bm vec))
     = set (keys_of ''bm25'' bm) \<union> set (keys_of ''vector'' vec)"
  by (simp add: fused_table_def add_results_def keys_foldl keys_of_def)

lemma score_at_fused_table:
  "score_at (fused_table ar self bm vec) key =
     foldl (fadd ar) 0 (key_terms ar (rrf_k self) ''bm25'' 0 bm key
                          @ key_terms ar (rrf_k self) ''vector'' 0 vec key)"
  unfolding fused_table_def add_results_def by (simp add: score_at_foldl score_at_Nil)

lemma fused_table_score:
  assumes "(key, e) \<in> set (fused_table ar self bm vec)"
  shows "fused_score e =
     foldl (fadd ar) 0 (key_terms ar (rrf_k self) ''bm25'' 0 bm key
                          @ key_terms ar (rrf_k self) ''vector'' 0 vec key)"
proof -
  have "map_of (fused_table ar self bm vec) key = Some e"
    using assms distinct_fused_table by (rule map_of_is_SomeI [rotated])
  then have "score_at (fused_table ar self bm vec) key = fused_score e"
    by (simp add: score_at_def)
  then show ?thesis by (simp add: score_at_fused_table)
qed

lemma filter_single:
  "distinct (map f xs) \<Longrightarrow> x \<in> set xs \<Longrightarrow> filter (\<lambda>y. f y = f x) xs = [x]"
proof (induction xs)
  case Nil
  then show ?case by simp
next
  case (Cons a xs)
  show ?case
  proof (cases "a = x")
    case True
    have "f y \<noteq> f x" if "y \<in> set xs" for y
      using Cons.prems(1) True that by (force simp: image_iff)
    then have "filter (\<lambda>y. f y = f x) xs = []" by (simp add: filter_empty_conv)
    with True show ?thesis by simp
  next
    case False
    with Cons.prems have "x \<in> set xs" "f a \<noteq> f x" by auto
    with Cons show ?thesis by simp
  qed
qed

lemma key_terms_single:
  assumes "distinct (keys_of src rs)" and "r < length rs"
  shows "key_terms ar k src 0 rs (chunk_key src r (rs ! r)) = [fdiv ar 1 (of_nat (k + r + 1))]"
proof -
  have mem: "(r, rs ! r) \<in> set (enumerate 0 rs)"
    using assms(2) by (auto simp: in_set_enumerate_eq)
  from filter_single [of "\<lambda>item. chunk_key src (fst item) (snd item)" "enumerate 0 rs"
      "(r, rs ! r)"] assms(1) mem
  show ?thesis by (simp add: key_terms_def keys_of_def)
qed

lemma key_terms_none:
  "key \<notin> set (keys_of src rs) \<Longrightarrow> key_terms ar k src 0 rs key = []"
  by (auto simp: key_terms_def keys_of_def filter_empty_conv)

lemma key_in_keys_of: "r < length rs \<Longrightarrow> chunk_key src r (rs ! r) \<in> set (keys_of src rs)"
proof -
  assume "r < length rs"
  then have "(r, rs ! r) \<in> set (enumerate 0 rs)" by (auto simp: in_set_enumerate_eq)
  then have "(\<lambda>item. chunk_key src (fst item) (snd item)) (r, rs ! r)
      \<in> (\<lambda>item. chunk_key src (fst item) (snd item)) ` set (enumerate 0 rs)"
    by (rule imageI)
  then show ?thesis by (simp add: keys_of_def)
qed

lemma fused_table_entry:
  assumes "key \<in> set (keys_of ''bm25'' bm) \<union> set (keys_of ''vector'' vec)"
  shows "\<exists>e. (key, e) \<in> set (fused_table ar self bm vec)"
proof -
  from assms have "key \<in> set (map fst (fused_table ar self bm vec))"
    by (simp only: keys_fused_table)
  then show ?thesis by auto
qed

lemma sorted_desc_sorted: "sorted_wrt (\<lambda>a b. f b \<le> f a) (sorted_desc f xs)"
proof -
  have "sorted (map (\<lambda>x. - f x) (sort_key (\<lambda>x. - f x) xs))"
    by (rule sorted_sort_key)
  then show ?thesis by (simp add: sorted_desc_def sorted_map)
qed

lemma sorted_wrt_py_take: "sorted_wrt P xs \<Longrightarrow> sorted_wrt P (py_take k xs)"
  by (simp add: py_take_def sorted_wrt_take)

lemma length_py_take: "0 \<le> k \<Longrightarrow> length (py_take k xs) = min (nat k) (length xs)"
  by (simp add: py_take_def min.commute)

lemma rrf_sorted_rounded:
  assumes "\<forall>x y. x \<le> y \<longrightarrow> fround ar x 6 \<le> fround ar y 6"
  shows "sorted_wrt (\<lambda>a b. the (rrf_score b) \<le> the (rrf_score a))
     (reciprocal_rank_fusion ar self bm vec top_k)"
proof -
  let ?ranked = "py_take top_k (sorted_desc fused_score (map snd (fused_table ar self bm vec)))"
  have "sorted_wrt (\<lambda>a b. fused_score b \<le> fused_score a) ?ranked"
    by (intro sorted_wrt_py_take sorted_desc_sorted)
  then have "sorted_wrt (\<lambda>a b. fround ar (fused_score b) 6 \<le> fround ar (fused_score a) 6) ?ranked"
    by (rule sorted_wrt_mono_rel [rotated]) (simp add: assms)
  then show ?thesis
    by (simp add: reciprocal_rank_fusion_def Let_def sorted_wrt_map finalize_def)
qed

lemma round_half_even_mono:
  assumes "x \<le> y"
  shows "round_half_even x \<le> round_half_even y"
proof -
  have fl: "\<lfloor>x\<rfloor> \<le> \<lfloor>y\<rfloor>" using assms by (rule floor_mono)
  have bx: "round_half_even x \<le> \<lfloor>x\<rfloor> + 1" "\<lfloor>x\<rfloor> \<le> round_half_even x"
    by (simp_all add: round_half_even_def Let_def)
  have bY: "round_half_even y \<le> \<lfloor>y\<rfloor> + 1" "\<lfloor>y\<rfloor> \<le> round_half_even y"
    by (simp_all add: round_half_even_def Let_def)
  show ?thesis
  proof (cases "\<lfloor>x\<rfloor> = \<lfloor>y\<rfloor>")
    case False
    with fl have "\<lfloor>x\<rfloor> + 1 \<le> \<lfloor>y\<rfloor>" by simp
    with bx bY show ?thesis by linarith
  next
    case True
    then have "x - of_int \<lfloor>x\<rfloor> \<le> y - of_int \<lfloor>y\<rfloor>" using assms by simp
    with True show ?thesis
      by (auto simp: round_half_even_def Let_def)
  qed
qed

lemma exact_arith_round_mono: "x \<le> y \<Longrightarrow> fround exact_arith x n \<le> fround exact_arith y n"
  by (simp add: exact_arith_def round_half_even_mono divide_right_mono)

text \<open>
  C2, as stated, fails for the score that the fused output carries: the score accumulated
  for an item is rounded to 6 decimal places when the item is put into the output list.
  An item at rank 0 of both lists has accumulated \<open>1/61 + 1/61\<close>; its \<open>rrf_score\<close> in the
  output is \<open>0.032787\<close>.
\<close>

theorem rrf_output_is_rounded:
  "map rrf_score (reciprocal_rank_fusion exact_arith init_hybrid_retriever
       [mk_doc ''a'' None] [mk_doc ''a'' None] 5) = [Some (32787 / 1000000)]
   \<and> (32787 / 1000000 :: rat)
       \<noteq> fadd exact_arith (fdiv exact_arith 1 (60 + 0 + 1)) (fdiv exact_arith 1 (60 + 0 + 1))"
  by code_simp

text \<open>
  C2, amended. With the constant \<open>rrf_k\<close> of the retriever, which is 60, and the
  arithmetic of floats: when no id occurs twice within a list, an item at rank \<open>r1\<close> of
  the keyword list and rank \<open>r2\<close> of the vector list has accumulated
  \<open>0.0 + 1/(rrf_k + r1 + 1) + 1/(rrf_k + r2 + 1)\<close>, added in this order, and an item of
  one list only has accumulated \<open>0.0\<close> plus its single term; in general the score
  accumulated under a key is the sum, from \<open>0.0\<close>, of the terms of the keyword list and
  then of the vector list that were entered under this key, and every key of either
  list has exactly one entry. The output is the list of the entries sorted by
  descending accumulated score, cut by the slice \<open>[:top_k]\<close> (to \<open>top_k\<close> entries at most
  for \<open>top_k \<ge> 0\<close>), and each item of it carries as \<open>rrf_score\<close> the accumulated score
  rounded to 6 decimal places; as rounding is monotone, the output is in descending order
  of \<open>rrf_score\<close> too.
\<close>

theorem rrf_scores:
  "(\<forall>r1 r2. distinct (keys_of ''bm25'' bm) \<and> distinct (keys_of ''vector'' vec)
        \<and> r1 < length bm \<and> r2 < length vec
        \<and> chunk_key ''bm25'' r1 (bm ! r1) = chunk_key ''vector'' r2 (vec ! r2) \<longrightarrow>
      (\<exists>e. (chunk_key ''bm25'' r1 (bm ! r1), e) \<in> set (fused_table ar self bm vec)
         \<and> fused_score e = fadd ar (fadd ar 0 (fdiv ar 1 (of_nat (rrf_k self + r1 + 1))))
                              (fdiv ar 1 (of_nat (rrf_k self + r2 + 1)))))
   \<and> (\<forall>r1. distinct (keys_of ''bm25'' bm) \<and> r1 < length bm
        \<and> chunk_key ''bm25'' r1 (bm ! r1) \<notin> set (keys_of ''vector'' vec) \<longrightarrow>
      (\<exists>e. (chunk_key ''bm25'' r1 (bm ! r1), e) \<in> set (fused_table ar self bm vec)
         \<and> fused_score e = fadd ar 0 (fdiv ar 1 (of_nat (rrf_k self + r1 + 1)))))
   \<and> (\<forall>r2. distinct (keys_of ''vector'' vec) \<and> r2 < length vec
        \<and> chunk_key ''vector'' r2 (vec ! r2) \<notin> set (keys_of ''bm25'' bm) \<longrightarrow>
      (\<exists>e. (chunk_key ''vector'' r2 (vec ! r2), e) \<in> set (fused_table ar self bm vec)
         \<and> fused_score e = fadd ar 0 (fdiv ar 1 (of_nat (rrf_k self + r2 + 1)))))
   \<and> (\<forall>key e. (key, e) \<in> set (fused_table ar self bm vec) \<longrightarrow>
        fused_score e = foldl (fadd ar) 0 (key_terms ar (rrf_k self) ''bm25'' 0 bm key
                                            @ key_terms ar (rrf_k self) ''vector'' 0 vec key))
   \<and> set (map fst (fused_table ar self bm vec))
       = set (keys_of ''bm25'' bm) \<union> set (keys_of ''vector'' vec)
   \<and> distinct (map fst (fused_table ar self bm vec))
   \<and> rrf_k init_hybrid_retriever = 60
   \<and> reciprocal_rank_fusion ar self bm vec top_k
       = map (finalize ar)
           (py_take top_k (sorted_desc fused_score (map snd (fused_table ar self bm vec))))
   \<and> sorted_wrt (\<lambda>a b. fused_score b \<le> fused_score a)
        (py_take top_k (sorted_desc fused_score (map snd (fused_table ar self bm vec))))
   \<and> (\<forall>e. rrf_score (finalize ar e) = Some (fround ar (fused_score e) 6))
   \<and> ((\<forall>x y. x \<le> y \<longrightarrow> fround ar x 6 \<le> fround ar y 6) \<longrightarrow>
        sorted_wrt (\<lambda>a b. the (rrf_score b) \<le> the (rrf_score a))
          (reciprocal_rank_fusion ar self bm vec top_k))
   \<and> (0 \<le> top_k \<longrightarrow>
        length (reciprocal_rank_fusion ar self bm vec top_k)
          = min (nat top_k) (length (fused_table ar self bm vec)))"
proof (intro conjI allI impI)
  fix r1 r2
  assume a: "distinct (keys_of ''bm25'' bm) \<and> distinct (keys_of ''vector'' vec)
        \<and> r1 < length bm \<and> r2 < length vec
        \<and> chunk_key ''bm25'' r1 (bm ! r1) = chunk_key ''vector'' r2 (vec ! r2)"
  then have d1: "distinct (keys_of ''bm25'' bm)" and d2: "distinct (keys_of ''vector'' vec)"
    and l1: "r1 < length bm" and l2: "r2 < length vec"
    and keq: "chunk_key ''bm25'' r1 (bm ! r1) = chunk_key ''vector'' r2 (vec ! r2)"
    by simp_all
  define key where "key = chunk_key ''bm25'' r1 (bm ! r1)"
  have k2: "key = chunk_key ''vector'' r2 (vec ! r2)" unfolding key_def by (rule keq)
  have "key \<in> set (keys_of ''bm25'' bm)" unfolding key_def by (rule key_in_keys_of [OF l1])
  then have "key \<in> set (keys_of ''bm25'' bm) \<union> set (keys_of ''vector'' vec)" by simp
  from fused_table_entry [OF this] obtain e where
    e: "(key, e) \<in> set (fused_table ar self bm vec)" by blast
  have t1: "key_terms ar (rrf_k self) ''bm25'' 0 bm key = [fdiv ar 1 (of_nat (rrf_k self + r1 + 1))]"
    unfolding key_def by (rule key_terms_single [OF d1 l1])
  have t2: "key_terms ar (rrf_k self) ''vector'' 0 vec key = [fdiv ar 1 (of_nat (rrf_k self + r2 + 1))]"
    unfolding k2 by (rule key_terms_single [OF d2 l2])
  have "fused_score e = fadd ar (fadd ar 0 (fdiv ar 1 (of_nat (rrf_k self + r1 + 1))))
                              (fdiv ar 1 (of_nat (rrf_k self + r2 + 1)))"
    unfolding fused_table_score [OF e] t1 t2 by simp
  with e show "\<exists>e. (chunk_key ''bm25'' r1 (bm ! r1), e) \<in> set (fused_table ar self bm vec)
         \<and> fused_score e = fadd ar (fadd ar 0 (fdiv ar 1 (of_nat (rrf_k self + r1 + 1))))
                              (fdiv ar 1 (of_nat (rrf_k self + r2 + 1)))"
    unfolding key_def by blast
next
  fix r1
  assume a: "distinct (keys_of ''bm25'' bm) \<and> r1 < length bm
        \<and> chunk_key ''bm25'' r1 (bm ! r1) \<notin> set (keys_of ''vector'' vec)"
  then have d1: "distinct (keys_of ''bm25'' bm)" and l1: "r1 < length bm" by simp_all
  define key where "key = chunk_key ''bm25'' r1 (bm ! r1)"
  have nk: "key \<notin> set (keys_of ''vector'' vec)" unfolding key_def using a by simp
  have "key \<in> set (keys_of ''bm25'' bm)" unfolding key_def by (rule key_in_keys_of [OF l1])
  then have "key \<in> set (keys_of ''bm25'' bm) \<union> set (keys_of ''vector'' vec)" by simp
  from fused_table_entry [OF this] obtain e where
    e: "(key, e) \<in> set (fused_table ar self bm vec)" by blast
  have t1: "key_terms ar (rrf_k self) ''bm25'' 0 bm key = [fdiv ar 1 (of_nat (rrf_k self + r1 + 1))]"
    unfolding key_def by (rule key_terms_single [OF d1 l1])
  have t2: "key_terms ar (rrf_k self) ''vector'' 0 vec key = []"
    by (rule key_terms_none [OF nk])
  have "fused_score e = fadd ar 0 (fdiv ar 1 (of_nat (rrf_k self + r1 + 1)))"
    unfolding fused_table_score [OF e] t1 t2 by simp
  with e show "\<exists>e. (chunk_key ''bm25'' r1 (bm ! r1), e) \<in> set (fused_table ar self bm vec)
         \<and> fused_score e = fadd ar 0 (fdiv ar 1 (of_nat (rrf_k self + r1 + 1)))"
    unfolding key_def by blast
next
  fix r2
  assume a: "distinct (keys_of ''vector'' vec) \<and> r2 < length vec
        \<and> chunk_key ''vector'' r2 (vec ! r2) \<notin> set (keys_of ''bm25'' bm)"
  then have d2: "distinct (keys_of ''vector'' vec)" and l2: "r2 < length vec" by simp_all
  define key where "key = chunk_key ''vector'' r2 (vec ! r2)"
  have nk: "key \<notin> set (keys_of ''bm25'' bm)" unfolding key_def using a by simp
  have "key \<in> set (keys_of ''vector'' vec)" unfolding key_def by (rule key_in_keys_of [OF l2])
  then have "key \<in> set (keys_of ''bm25'' bm) \<union> set (keys_of ''vector'' vec)" by simp
  from fused_table_entry [OF this] obtain e where
    e: "(key, e) \<in> set (fused_table ar self bm vec)" by blast
  have t2: "key_terms ar (rrf_k self) ''vector'' 0 vec key = [fdiv ar 1 (of_nat (rrf_k self + r2 + 1))]"
    unfolding key_def by (rule key_terms_single [OF d2 l2])
  have t1: "key_terms ar (rrf_k self) ''bm25'' 0 bm key = []"
    by (rule key_terms_none [OF nk])
  have "fused_score e = fadd ar 0 (fdiv ar 1 (of_nat (rrf_k self + r2 + 1)))"
    unfolding fused_table_score [OF e] t1 t2 by simp
  with e show "\<exists>e. (chunk_key ''vector'' r2 (vec ! r2), e) \<in> set (fused_table ar self bm vec)
         \<and> fused_score e = fadd ar 0 (fdiv ar 1 (of_nat (rrf_k self + r2 + 1)))"
    unfolding key_def by blast
next
  fix key e
  assume "(key, e) \<in> set (fused_table ar self bm vec)"
  then show "fused_score e = foldl (fadd ar) 0 (key_terms ar (rrf_k self) ''bm25'' 0 bm key
      @ key_terms ar (rrf_k self) ''vector'' 0 vec key)"
    by (rule fused_table_score)
next
  show "set (map fst (fused_table ar self bm vec))
       = set (keys_of ''bm25'' bm) \<union> set (keys_of ''vector'' vec)"
    by (rule keys_fused_table)
next
  show "distinct (map fst (fused_table ar self bm vec))" by (rule distinct_fused_table)
next
  show "rrf_k init_hybrid_retriever = 60" by (simp add: init_hybrid_retriever_def)
next
  show "reciprocal_rank_fusion ar self bm vec top_k
       = map (finalize ar)
           (py_take top_k (sorted_desc fused_score (map snd (fused_table ar self bm vec))))"
    by (simp add: reciprocal_rank_fusion_def)
next
  show "sorted_wrt (\<lambda>a b. fused_score b \<le> fused_score a)
        (py_take top_k (sorted_desc fused_score (map snd (fused_table ar self bm vec))))"
    by (intro sorted_wrt_py_take sorted_desc_sorted)
next
  fix e show "rrf_score (finalize ar e) = Some (fround ar (fused_score e) 6)"
    by (simp add: finalize_def)
next
  assume "\<forall>x y. x \<le> y \<longrightarrow> fround ar x 6 \<le> fround ar y 6"
  then show "sorted_wrt (\<lambda>a b. the (rrf_score b) \<le> the (rrf_score a))
        (reciprocal_rank_fusion ar self bm vec top_k)"
    by (rule rrf_sorted_rounded)
next
  assume "0 \<le> top_k"
  then show "length (reciprocal_rank_fusion ar self bm vec top_k)
          = min (nat top_k) (length (fused_table ar self bm vec))"
    by (simp add: reciprocal_rank_fusion_def length_py_take sorted_desc_def)
qed

theorem rrf_scores_witness:
  "(\<exists>e. (''b'', e) \<in> set (fused_table exact_arith init_hybrid_retriever
                               [mk_doc ''a'' None, mk_doc ''b'' None] [mk_doc ''b'' None])
        \<and> fused_score e = 1 / 62 + 1 / 61)
   \<and> (\<exists>e. (''a'', e) \<in> set (fused_table exact_arith init_hybrid_retriever
                               [mk_doc ''a'' None, mk_doc ''b'' None] [mk_doc ''b'' None])
        \<and> fused_score e = 1 / 61)
   \<and> sorted_wrt (\<lambda>a b. the (rrf_score b) \<le> the (rrf_score a))
        (reciprocal_rank_fusion exact_arith init_hybrid_retriever
           [mk_doc ''a'' None, mk_doc ''b'' None] [mk_doc ''b'' None] 1)
   \<and> length (reciprocal_rank_fusion exact_arith init_hybrid_retriever
               [mk_doc ''a'' None, mk_doc ''b'' None] [mk_doc ''b'' None] 1) = 1"
proof -
  define bm where "bm = [mk_doc ''a'' None, mk_doc ''b'' None]"
  define vec where "vec = [mk_doc ''b'' None]"
  have k1: "keys_of ''bm25'' bm = [''a'', ''b'']"
    by (simp add: bm_def keys_of_def chunk_key_def mk_doc_def)
  have k2: "keys_of ''vector'' vec = [''b'']"
    by (simp add: vec_def keys_of_def chunk_key_def mk_doc_def)
  have c: "chunk_key ''bm25'' 1 (bm ! 1) = ''b''" "chunk_key ''vector'' 0 (vec ! 0) = ''b''"
    "chunk_key ''bm25'' 0 (bm ! 0) = ''a''"
    by (simp_all add: bm_def vec_def chunk_key_def mk_doc_def)
  have n: "length bm = 2" "length vec = 1" by (simp_all add: bm_def vec_def)
  have len: "length (fused_table exact_arith init_hybrid_retriever bm vec) = 2"
  proof -
    have "length (map fst (fused_table exact_arith init_hybrid_retriever bm vec))
        = card (set (map fst (fused_table exact_arith init_hybrid_retriever bm vec)))"
      by (rule distinct_card [symmetric]) (rule distinct_fused_table)
    also have "\<dots> = 2" unfolding keys_fused_table k1 k2 by (simp add: card_insert_if)
    finally show ?thesis by simp
  qed
  note th = rrf_scores [of bm vec exact_arith init_hybrid_retriever 1]
  have h2: "distinct (keys_of ''bm25'' bm) \<and> distinct (keys_of ''vector'' vec)
      \<and> 1 < length bm \<and> 0 < length vec
      \<and> chunk_key ''bm25'' 1 (bm ! 1) = chunk_key ''vector'' 0 (vec ! 0)"
    unfolding k1 k2 c n by simp
  from th [THEN conjunct1, rule_format, OF h2] obtain e where
    e: "(chunk_key ''bm25'' 1 (bm ! 1), e) \<in> set (fused_table exact_arith init_hybrid_retriever bm vec)"
    and es: "fused_score e = fadd exact_arith
        (fadd exact_arith 0 (fdiv exact_arith 1 (of_nat (rrf_k init_hybrid_retriever + 1 + 1))))
        (fdiv exact_arith 1 (of_nat (rrf_k init_hybrid_retriever + 0 + 1)))"
    by blast
  from es have "fused_score e = 1 / 62 + 1 / 61"
    by (simp add: init_hybrid_retriever_def exact_arith_def)
  with e have both: "\<exists>e. (''b'', e) \<in> set (fused_table exact_arith init_hybrid_retriever bm vec)
      \<and> fused_score e = 1 / 62 + 1 / 61"
    unfolding c by blast
  have h1: "distinct (keys_of ''bm25'' bm) \<and> 0 < length bm
      \<and> chunk_key ''bm25'' 0 (bm ! 0) \<notin> set (keys_of ''vector'' vec)"
    unfolding k1 k2 c n by simp
  from th [THEN conjunct2, THEN conjunct1, rule_format, OF h1] obtain d where
    d: "(chunk_key ''bm25'' 0 (bm ! 0), d) \<in> set (fused_table exact_arith init_hybrid_retriever bm vec)"
    and ds: "fused_score d
      = fadd exact_arith 0 (fdiv exact_arith 1 (of_nat (rrf_k init_hybrid_retriever + 0 + 1)))"
    by blast
  from ds have "fused_score d = 1 / 61"
    by (simp add: init_hybrid_retriever_def exact_arith_def)
  with d have one: "\<exists>e. (''a'', e) \<in> set (fused_table exact_arith init_hybrid_retriever bm vec)
      \<and> fused_score e = 1 / 61"
    unfolding c by blast
  have mono: "\<forall>x y. x \<le> y \<longrightarrow> fround exact_arith x 6 \<le> fround exact_arith y 6"
    by (simp add: exact_arith_round_mono)
  have srt: "sorted_wrt (\<lambda>a b. the (rrf_score b) \<le> the (rrf_score a))
      (reciprocal_rank_fusion exact_arith init_hybrid_retriever bm vec 1)"
    using th [THEN conjunct2, THEN conjunct2, THEN conjunct2, THEN conjunct2, THEN conjunct2,
        THEN conjunct2, THEN conjunct2, THEN conjunct2, THEN conjunct2, THEN conjunct2,
        THEN conjunct1] mono by blast
  have "length (reciprocal_rank_fusion exact_arith init_hybrid_retriever bm vec 1) = 1"
    using th [THEN conjunct2, THEN conjunct2, THEN conjunct2, THEN conjunct2, THEN conjunct2,
        THEN conjunct2, THEN conjunct2, THEN conjunct2, THEN conjunct2, THEN conjunct2,
        THEN conjunct2] len by simp
  with both one srt show ?thesis unfolding bm_def vec_def by blast
qed


end
